theory Spec2Isabelle
  imports Complex_Main "HOL-Library.Word"
begin

section \<open>Strings and numbers of the script\<close>

text \<open>
  A JavaScript string is a sequence of 16-bit code units. Identifiers, class names and the
  ASCII messages of the script are written as HOL string literals and converted with
  \<open>js\<close>; the three non-ASCII characters the script uses are given by their code units.
\<close>

type_synonym jschar = "16 word"
type_synonym jsstring = "jschar list"

definition js :: "string \<Rightarrow> jsstring" where
  "js s = map of_char s"

text \<open>
  The characters matched by \<open>\s\<close> in a regular expression and stripped by
  \<open>String.prototype.trim\<close>: ECMAScript's WhiteSpace and LineTerminator productions.
\<close>

definition isWhiteSpace :: "jschar \<Rightarrow> bool" where
  "isWhiteSpace c \<longleftrightarrow>
     c \<in> set [0x0009, 0x000A, 0x000B, 0x000C, 0x000D, 0x0020, 0x00A0, 0x1680,
       0x2000, 0x2001, 0x2002, 0x2003, 0x2004, 0x2005, 0x2006, 0x2007, 0x2008, 0x2009,
       0x200A, 0x2028, 0x2029, 0x202F, 0x205F, 0x3000, 0xFEFF]"

definition trim :: "jsstring \<Rightarrow> jsstring" where
  "trim s = rev (dropWhile isWhiteSpace (rev (dropWhile isWhiteSpace s)))"

definition AT :: jschar where
  "AT = 0x40"

definition DOT :: jschar where
  "DOT = 0x2E"

section \<open>Numbers of the script\<close>

text \<open>
  A JavaScript number is an IEEE 754 double. A finite double is given by its value, a
  real number; every arithmetic operation computes the exact result and rounds it to the
  nearest double, ties to the even significand, with gradual underflow below \<open>2^-1022\<close>
  and overflow to an infinity from \<open>2^1024\<close> on. The sign of a zero is not kept: no
  operation of the script tells \<open>-0\<close> from \<open>0\<close>.
\<close>

datatype number = Finite real | PosInfinity | NegInfinity | NaN

definition pow2 :: "int \<Rightarrow> real" where
  "pow2 k = (if 0 \<le> k then 2 ^ nat k else 1 / 2 ^ nat (- k))"

text \<open>The exponent of a positive value: the greatest \<open>e\<close> with \<open>2^e \<le> a\<close>.\<close>

function binaryExponent :: "real \<Rightarrow> int" where
  "binaryExponent a =
     (if a \<le> 0 then 0
      else if 2 \<le> a then binaryExponent (a / 2) + 1
      else if a < 1 then binaryExponent (a * 2) - 1
      else 0)"
  by pat_completeness auto
termination
proof (relation "measure (\<lambda>a. if 1 \<le> a then nat \<lfloor>a\<rfloor> else nat \<lceil>1 / a\<rceil>)")
  show "wf (measure (\<lambda>a::real. if 1 \<le> a then nat \<lfloor>a\<rfloor> else nat \<lceil>1 / a\<rceil>))"
    by simp
next
  fix a :: real
  assume "\<not> a \<le> 0" "2 \<le> a"
  then have "\<lfloor>a / 2\<rfloor> < \<lfloor>a\<rfloor>" "0 < \<lfloor>a\<rfloor>" by linarith+
  then show "(a / 2, a) \<in> measure (\<lambda>a. if 1 \<le> a then nat \<lfloor>a\<rfloor> else nat \<lceil>1 / a\<rceil>)"
    using \<open>2 \<le> a\<close> by auto
next
  fix a :: real
  assume a: "\<not> a \<le> 0" "\<not> 2 \<le> a" "a < 1"
  then have x: "1 < 1 / a" by simp
  show "(a * 2, a) \<in> measure (\<lambda>a. if 1 \<le> a then nat \<lfloor>a\<rfloor> else nat \<lceil>1 / a\<rceil>)"
  proof (cases "1 \<le> a * 2")
    case True
    with a have "\<lfloor>a * 2\<rfloor> = 1" by linarith
    moreover from x have "2 \<le> \<lceil>1 / a\<rceil>" by linarith
    ultimately show ?thesis using True a by auto
  next
    case False
    define x where "x = 1 / a"
    from False a have h: "2 < x" by (simp add: x_def field_simps)
    have "x \<le> of_int \<lceil>x\<rceil>" by (rule le_of_int_ceiling)
    with h have "x / 2 \<le> of_int \<lceil>x\<rceil> - 1" by linarith
    then have "x / 2 \<le> of_int (\<lceil>x\<rceil> - 1)" by simp
    then have "\<lceil>x / 2\<rceil> \<le> \<lceil>x\<rceil> - 1" by (rule ceiling_le)
    moreover have "0 < \<lceil>x\<rceil>" using h by linarith
    ultimately have lt: "nat \<lceil>x / 2\<rceil> < nat \<lceil>x\<rceil>" by linarith
    have e: "1 / (a * 2) = x / 2" by (simp add: x_def)
    from lt have "nat \<lceil>1 / (a * 2)\<rceil> < nat \<lceil>x\<rceil>" by (simp only: e)
    then have "nat \<lceil>1 / (a * 2)\<rceil> < nat \<lceil>1 / a\<rceil>" by (simp only: x_def)
    then show ?thesis using False a by simp
  qed
qed

declare binaryExponent.simps [simp del]

definition roundHalfEven :: "real \<Rightarrow> int" where
  "roundHalfEven x =
     (let n = \<lfloor>x\<rfloor>; r = x - of_int n
      in if r < 1 / 2 then n else if 1 / 2 < r then n + 1 else if even n then n else n + 1)"

text \<open>
  Rounding at exponent \<open>e\<close>: the doubles there are the multiples of \<open>2^(e - 52)\<close>.
\<close>

definition roundAtExponent :: "real \<Rightarrow> int \<Rightarrow> number" where
  "roundAtExponent x e =
     (let q = pow2 (e - 52);
          r = of_int (roundHalfEven (\<bar>x\<bar> / q)) * q
      in if pow2 1024 \<le> r then (if 0 < x then PosInfinity else NegInfinity)
         else Finite (if 0 < x then r else - r))"

definition roundDouble :: "real \<Rightarrow> number" where
  "roundDouble x =
     (if x = 0 then Finite 0
      else roundAtExponent x (max (binaryExponent \<bar>x\<bar>) (- 1022)))"

fun numNeg :: "number \<Rightarrow> number" where
  "numNeg (Finite x) = Finite (- x)"
| "numNeg PosInfinity = NegInfinity"
| "numNeg NegInfinity = PosInfinity"
| "numNeg NaN = NaN"

fun numAdd :: "number \<Rightarrow> number \<Rightarrow> number" where
  "numAdd (Finite x) (Finite y) = roundDouble (x + y)"
| "numAdd NaN b = NaN"
| "numAdd a NaN = NaN"
| "numAdd PosInfinity NegInfinity = NaN"
| "numAdd NegInfinity PosInfinity = NaN"
| "numAdd PosInfinity b = PosInfinity"
| "numAdd a PosInfinity = PosInfinity"
| "numAdd NegInfinity b = NegInfinity"
| "numAdd a NegInfinity = NegInfinity"

definition numSub :: "number \<Rightarrow> number \<Rightarrow> number" where
  "numSub a b = numAdd a (numNeg b)"

fun numMul :: "number \<Rightarrow> number \<Rightarrow> number" where
  "numMul (Finite x) (Finite y) = roundDouble (x * y)"
| "numMul NaN b = NaN"
| "numMul a NaN = NaN"
| "numMul (Finite x) b = (if x = 0 then NaN else if 0 < x then b else numNeg b)"
| "numMul a (Finite y) = (if y = 0 then NaN else if 0 < y then a else numNeg a)"
| "numMul a b = (if a = b then PosInfinity else NegInfinity)"

fun numLe :: "number \<Rightarrow> number \<Rightarrow> bool" where
  "numLe (Finite x) (Finite y) = (x \<le> y)"
| "numLe NaN b = False"
| "numLe a NaN = False"
| "numLe NegInfinity b = True"
| "numLe a PosInfinity = True"
| "numLe a b = False"

text \<open>The value of the literal \<open>0.4\<close>: the double nearest to 4/10.\<close>

definition DOUBLE_0_4 :: real where
  "DOUBLE_0_4 = 3602879701896397 / 9007199254740992"

section \<open>F. Contact form: the email pattern\<close>

text \<open>
  The fragment of regular expressions that \<open>isValidEmailAddress\<close> uses: a pattern anchored
  at both ends (\<open>^ ... $\<close>, no flags) whose items are a literal character or a negated
  character class, taken once or one or more times (\<open>+\<close>).
\<close>

datatype class_item = ClassWhiteSpace | ClassChar jschar

datatype atom = NegatedClass "class_item list" | Literal jschar

datatype quantifier = Once | OneOrMore

type_synonym regex = "(atom \<times> quantifier) list"

fun classItemMatches :: "class_item \<Rightarrow> jschar \<Rightarrow> bool" where
  "classItemMatches ClassWhiteSpace c = isWhiteSpace c"
| "classItemMatches (ClassChar d) c = (c = d)"

fun atomMatches :: "atom \<Rightarrow> jschar \<Rightarrow> bool" where
  "atomMatches (NegatedClass items) c = (\<not> list_ex (\<lambda>i. classItemMatches i c) items)"
| "atomMatches (Literal d) c = (c = d)"

text \<open>
  Backtracking match of the whole input: a \<open>+\<close> item first tries to take one more
  character and then falls back to the rest of the pattern; the empty pattern stands for
  the closing anchor \<open>$\<close>.
\<close>

fun regexTest :: "regex \<Rightarrow> jsstring \<Rightarrow> bool" where
  "regexTest [] s = (s = [])"
| "regexTest ((a, q) # r) [] = False"
| "regexTest ((a, Once) # r) (c # s) = (atomMatches a c \<and> regexTest r s)"
| "regexTest ((a, OneOrMore) # r) (c # s) =
     (atomMatches a c \<and> (regexTest ((a, OneOrMore) # r) s \<or> regexTest r s))"

text \<open>The literal \<^verbatim>\<open>/^[^\s@]+@[^\s@]+\.[^\s@]+$/\<close>.\<close>

definition EMAIL_PATTERN :: regex where
  "EMAIL_PATTERN =
     [(NegatedClass [ClassWhiteSpace, ClassChar AT], OneOrMore),
      (Literal AT, Once),
      (NegatedClass [ClassWhiteSpace, ClassChar AT], OneOrMore),
      (Literal DOT, Once),
      (NegatedClass [ClassWhiteSpace, ClassChar AT], OneOrMore)]"

definition isValidEmailAddress :: "jsstring \<Rightarrow> bool" where
  "isValidEmailAddress email = regexTest EMAIL_PATTERN email"

text \<open>A character that is neither whitespace nor \<open>@\<close>: what \<open>[^\s@]\<close> matches.\<close>

definition plainChar :: "jschar \<Rightarrow> bool" where
  "plainChar c \<longleftrightarrow> \<not> isWhiteSpace c \<and> c \<noteq> AT"

text \<open>
  The shape of an accepted address as the specification words it: a non-empty local part
  free of whitespace and \<open>@\<close>, then \<open>@\<close>, then a domain part free of whitespace and
  \<open>@\<close> that contains a dot. The local part cannot hold an \<open>@\<close>, so it ends at the first one.
\<close>

definition specEmailShape :: "jsstring \<Rightarrow> bool" where
  "specEmailShape s =
     (let localPart = takeWhile (\<lambda>c. c \<noteq> AT) s;
          rest = dropWhile (\<lambda>c. c \<noteq> AT) s
      in localPart \<noteq> [] \<and> list_all plainChar localPart \<and> rest \<noteq> [] \<and>
         list_all plainChar (tl rest) \<and> DOT \<in> set (tl rest))"

section \<open>The document as the script reads it\<close>

text \<open>
  What the handlers read from the rendered page at the moment they run: the scroll offset
  and height of the window, the element found for an identifier (with the two positions
  the script asks of it) and the rendered height of the navigation bar when the page has
  one. The markup is not part of the script, so all of it is an input. The platform
  delivers each of these numbers as a finite double; the record holds its value.
\<close>

record layout =
  offsetTop :: real
  rectTop :: real

record view =
  pageYOffset :: real
  innerHeight :: real
  getElementById :: "jsstring \<Rightarrow> layout option"
  siteNavHeight :: "real option"

section \<open>C. Mobile menu\<close>

record panel =
  is_open :: bool
  aria_hidden :: "jsstring option"

record button =
  aria_expanded :: "jsstring option"
  aria_label :: "jsstring option"

record menu =
  mobileMenuPanel :: "panel option"
  hamburgerButton :: "button option"

definition openMobileMenu :: "menu \<Rightarrow> menu" where
  "openMobileMenu m =
     (case (mobileMenuPanel m, hamburgerButton m) of
        (Some p, Some b) \<Rightarrow>
          m\<lparr>mobileMenuPanel := Some (p\<lparr>is_open := True, aria_hidden := Some (js ''false'')\<rparr>),
            hamburgerButton := Some (b\<lparr>aria_expanded := Some (js ''true''),
              aria_label := Some (js ''Close navigation menu'')\<rparr>)\<rparr>
      | _ \<Rightarrow> m)"

definition closeMobileMenu :: "menu \<Rightarrow> menu" where
  "closeMobileMenu m =
     (case (mobileMenuPanel m, hamburgerButton m) of
        (Some p, Some b) \<Rightarrow>
          m\<lparr>mobileMenuPanel := Some (p\<lparr>is_open := False, aria_hidden := Some (js ''true'')\<rparr>),
            hamburgerButton := Some (b\<lparr>aria_expanded := Some (js ''false''),
              aria_label := Some (js ''Open navigation menu'')\<rparr>)\<rparr>
      | _ \<Rightarrow> m)"

section \<open>A. Smooth-scroll navigation\<close>

text \<open>
  A click is given by the chain of elements from the event target upwards (the target
  first). \<open>closest\<close> returns the first element of the chain that the selector
  \<^verbatim>\<open>a[href^="#"]\<close> matches.
\<close>

record element =
  tagName :: string
  href :: "jsstring option"

definition matchesInternalAnchor :: "element \<Rightarrow> bool" where
  "matchesInternalAnchor e \<longleftrightarrow>
     tagName e = ''a'' \<and> (case href e of None \<Rightarrow> False | Some h \<Rightarrow> take 1 h = js ''#'')"

definition closest :: "element list \<Rightarrow> element option" where
  "closest chain = find matchesInternalAnchor chain"

text \<open>A hyperlink: an anchor element that carries a target.\<close>

definition isHyperlink :: "element \<Rightarrow> bool" where
  "isHyperlink e \<longleftrightarrow> tagName e = ''a'' \<and> href e \<noteq> None"

record click_result =
  defaultPrevented :: bool
  scrolledTo :: "number option"
  menuAfter :: menu

definition ignoredClick :: "menu \<Rightarrow> click_result" where
  "ignoredClick m = \<lparr>defaultPrevented = False, scrolledTo = None, menuAfter = m\<rparr>"

definition clickHandler :: "view \<Rightarrow> menu \<Rightarrow> element list \<Rightarrow> click_result" where
  "clickHandler v m chain =
     (case closest chain of
        None \<Rightarrow> ignoredClick m
      | Some anchor \<Rightarrow>
          (case href anchor of
             None \<Rightarrow> ignoredClick m
           | Some targetHash \<Rightarrow>
               if targetHash = [] \<or> targetHash = js ''#'' then ignoredClick m
               else
                 (case getElementById v (drop 1 targetHash) of
                    None \<Rightarrow> ignoredClick m
                  | Some targetSection \<Rightarrow>
                      let navHeight = (case siteNavHeight v of Some h \<Rightarrow> h | None \<Rightarrow> 0);
                          sectionTop =
                            numAdd (Finite (rectTop targetSection)) (Finite (pageYOffset v));
                          scrollDestination =
                            numSub (numSub sectionTop (Finite navHeight)) (Finite 8)
                      in \<lparr>defaultPrevented = True, scrolledTo = Some scrollDestination,
                           menuAfter = closeMobileMenu m\<rparr>)))"

section \<open>B. Scroll-spy\<close>

definition SECTION_IDS :: "jsstring list" where
  "SECTION_IDS = [js ''home'', js ''about'', js ''projects'', js ''skills'', js ''contact'']"

record nav_link =
  data_section :: jsstring
  is_active :: bool
  aria_current :: "jsstring option"

definition highlightLink :: "jsstring \<Rightarrow> nav_link \<Rightarrow> nav_link" where
  "highlightLink activeSectionId link =
     (let matches = (data_section link = activeSectionId)
      in link\<lparr>is_active := matches,
              aria_current := (if matches then Some (js ''page'') else None)\<rparr>)"

definition highlightActiveSection :: "jsstring \<Rightarrow> nav_link list \<Rightarrow> nav_link list" where
  "highlightActiveSection activeSectionId allNavLinks =
     map (highlightLink activeSectionId) allNavLinks"

definition visitSection :: "view \<Rightarrow> number \<Rightarrow> jsstring \<Rightarrow> jsstring \<Rightarrow> jsstring" where
  "visitSection v triggerLineY sectionId currentSectionId =
     (case getElementById v sectionId of
        None \<Rightarrow> currentSectionId
      | Some sectionElement \<Rightarrow>
          if numLe (Finite (offsetTop sectionElement)) triggerLineY then sectionId
          else currentSectionId)"

text \<open>The expression \<^verbatim>\<open>window.pageYOffset + window.innerHeight * 0.4\<close>.\<close>

definition triggerLine :: "view \<Rightarrow> number" where
  "triggerLine v =
     numAdd (Finite (pageYOffset v)) (numMul (Finite (innerHeight v)) (Finite DOUBLE_0_4))"

definition detectActiveSection :: "view \<Rightarrow> jsstring" where
  "detectActiveSection v =
     (if pageYOffset v < 80 then js ''home''
      else
        let triggerLineY = triggerLine v
        in fold (visitSection v triggerLineY) SECTION_IDS (SECTION_IDS ! 0))"

text \<open>
  The unit's lifetime: one evaluation when the script starts, one on the load event, and
  one per animation frame that a scroll event has scheduled. Each event comes with the
  page as it is at that moment.
\<close>

record spy_state =
  allNavLinks :: "nav_link list"
  rafScheduled :: bool

datatype spy_event = ScrollEvent | AnimationFrame view | LoadEvent view

definition initScrollSpy :: "view \<Rightarrow> nav_link list \<Rightarrow> spy_state" where
  "initScrollSpy v links =
     \<lparr>allNavLinks = highlightActiveSection (detectActiveSection v) links,
      rafScheduled = False\<rparr>"

fun spyStep :: "spy_event \<Rightarrow> spy_state \<Rightarrow> spy_state" where
  "spyStep ScrollEvent s = (if \<not> rafScheduled s then s\<lparr>rafScheduled := True\<rparr> else s)"
| "spyStep (AnimationFrame v) s =
     (if rafScheduled s
      then \<lparr>allNavLinks = highlightActiveSection (detectActiveSection v) (allNavLinks s),
            rafScheduled = False\<rparr>
      else s)"
| "spyStep (LoadEvent v) s =
     s\<lparr>allNavLinks := highlightActiveSection (detectActiveSection v) (allNavLinks s)\<rparr>"

definition spyRun :: "view \<Rightarrow> nav_link list \<Rightarrow> spy_event list \<Rightarrow> spy_state" where
  "spyRun v links events = fold spyStep events (initScrollSpy v links)"

text \<open>The test the walk applies to a section: it exists and its top is at or above the trigger line.\<close>

definition atOrAbove :: "view \<Rightarrow> jsstring \<Rightarrow> bool" where
  "atOrAbove v sectionId \<longleftrightarrow>
     (case getElementById v sectionId of
        None \<Rightarrow> False
      | Some sectionElement \<Rightarrow> numLe (Finite (offsetTop sectionElement)) (triggerLine v))"

text \<open>
  The section found by the most recent evaluation of a run. Evaluations happen when the
  script starts, on a load event, and on an animation frame that a scroll event has
  scheduled; the first argument follows \<open>rafScheduled\<close>.
\<close>

fun lastEvaluation :: "bool \<Rightarrow> jsstring \<Rightarrow> spy_event list \<Rightarrow> jsstring" where
  "lastEvaluation scheduled current [] = current"
| "lastEvaluation scheduled current (ScrollEvent # events) =
     lastEvaluation True current events"
| "lastEvaluation scheduled current (AnimationFrame v # events) =
     (if scheduled then lastEvaluation False (detectActiveSection v) events
      else lastEvaluation scheduled current events)"
| "lastEvaluation scheduled current (LoadEvent v # events) =
     lastEvaluation scheduled (detectActiveSection v) events"

definition lastDetected :: "view \<Rightarrow> spy_event list \<Rightarrow> jsstring" where
  "lastDetected v events = lastEvaluation False (detectActiveSection v) events"

text \<open>
  Modelled from the spec: the navigation links as the markup delivers them (the page's
  markup is not among the sources). A link is identified by its section tag, and before
  the first scroll-position evaluation no link is active.
\<close>

definition markupLinks :: "jsstring list \<Rightarrow> nav_link list" where
  "markupLinks tags =
     map (\<lambda>tag. \<lparr>data_section = tag, is_active = False, aria_current = None\<rparr>) tags"

text \<open>
  The trigger line and the selected section as the specification words them: the scroll
  offset plus 40 percent of the window height, in exact arithmetic.
\<close>

definition specTriggerLine :: "view \<Rightarrow> real" where
  "specTriggerLine v = pageYOffset v + innerHeight v * (40 / 100)"

definition specAtOrAbove :: "view \<Rightarrow> jsstring \<Rightarrow> bool" where
  "specAtOrAbove v sectionId \<longleftrightarrow>
     (case getElementById v sectionId of
        None \<Rightarrow> False
      | Some sectionElement \<Rightarrow> offsetTop sectionElement \<le> specTriggerLine v)"

text \<open>
  The scroll destination as the specification words it: the target's top in the document
  minus the height of the navigation bar minus 8, in exact arithmetic.
\<close>

definition specScrollDestination :: "view \<Rightarrow> layout \<Rightarrow> real" where
  "specScrollDestination v targetSection =
     rectTop targetSection + pageYOffset v
       - (case siteNavHeight v of Some h \<Rightarrow> h | None \<Rightarrow> 0) - 8"

text \<open>The page of the specification's example: three sections, the other two absent.\<close>

definition exampleSections :: "jsstring \<Rightarrow> layout option" where
  "exampleSections i =
     (if i = js ''home'' then Some \<lparr>offsetTop = 0, rectTop = 0\<rparr>
      else if i = js ''about'' then Some \<lparr>offsetTop = 800, rectTop = 800\<rparr>
      else if i = js ''projects'' then Some \<lparr>offsetTop = 1600, rectTop = 1600\<rparr>
      else None)"

definition exampleView :: "real \<Rightarrow> view" where
  "exampleView y =
     \<lparr>pageYOffset = y, innerHeight = 1000, getElementById = exampleSections,
      siteNavHeight = Some 64\<rparr>"

section \<open>D. Scroll reveal animations\<close>

text \<open>
  Reveal elements are numbered. The state holds the elements that carry the class
  \<open>is-revealed\<close> and the elements the intersection observer still watches.
\<close>

record reveal_state =
  revealed :: "nat set"
  observed :: "nat set"

record entry =
  target :: nat
  isIntersecting :: bool

definition initRevealAnimations :: "bool \<Rightarrow> nat list \<Rightarrow> nat set \<Rightarrow> reveal_state" where
  "initRevealAnimations ioReady revealElements marked =
     (if \<not> ioReady
      then \<lparr>revealed = fold insert revealElements marked, observed = {}\<rparr>
      else \<lparr>revealed = marked, observed = fold insert revealElements {}\<rparr>)"

definition revealEntry :: "entry \<Rightarrow> reveal_state \<Rightarrow> reveal_state" where
  "revealEntry e s =
     (if isIntersecting e
      then \<lparr>revealed = insert (target e) (revealed s), observed = observed s - {target e}\<rparr>
      else s)"

definition revealCallback :: "entry list \<Rightarrow> reveal_state \<Rightarrow> reveal_state" where
  "revealCallback entries s = fold revealEntry entries s"

section \<open>E. Skill bar fill animations\<close>

text \<open>
  A bar is given by its \<open>data-fill-width\<close> attribute. \<open>fillBars\<close> only schedules the
  width assignments, so the state records the scheduled timers: delay, index of the bar
  and the width to assign.
\<close>

record skills_state =
  hasAnimated :: bool
  sectionObserved :: bool
  widthTimers :: "(nat \<times> nat \<times> jsstring) list"

definition attributeText :: "jsstring option \<Rightarrow> jsstring" where
  "attributeText a = (case a of None \<Rightarrow> js ''null'' | Some w \<Rightarrow> w)"

definition fillBars :: "jsstring option list \<Rightarrow> skills_state \<Rightarrow> skills_state" where
  "fillBars bars s =
     s\<lparr>widthTimers := widthTimers s @
        map (\<lambda>(index, targetWidth). (index * 80, index, attributeText targetWidth @ js ''%''))
          (enumerate 0 bars)\<rparr>"

definition skillsEntry :: "jsstring option list \<Rightarrow> entry \<Rightarrow> skills_state \<Rightarrow> skills_state" where
  "skillsEntry bars e s =
     (if isIntersecting e \<and> \<not> hasAnimated s
      then (fillBars bars (s\<lparr>hasAnimated := True\<rparr>))\<lparr>sectionObserved := False\<rparr>
      else s)"

definition skillsCallback :: "jsstring option list \<Rightarrow> entry list \<Rightarrow> skills_state \<Rightarrow> skills_state" where
  "skillsCallback bars entries s = fold (skillsEntry bars) entries s"

definition initSkillBarAnimations ::
    "bool \<Rightarrow> bool \<Rightarrow> jsstring option list \<Rightarrow> skills_state" where
  "initSkillBarAnimations skillsSectionPresent ioReady bars =
     (if \<not> skillsSectionPresent
      then \<lparr>hasAnimated = False, sectionObserved = False, widthTimers = []\<rparr>
      else if \<not> ioReady
      then fillBars bars \<lparr>hasAnimated = False, sectionObserved = False, widthTimers = []\<rparr>
      else \<lparr>hasAnimated = False, sectionObserved = True, widthTimers = []\<rparr>)"

section \<open>F. Contact form\<close>

text \<open>
  The state of one form: the values of the four fields, the fields that carry the class
  \<open>field-error\<close>, the status element, the submit control, the anchors attached to the
  document body by this unit, and what the unit has handed to the platform: the timers that
  will remove an error class, the mailto targets it has clicked, the requests it has
  issued and the number of those not settled yet.

  The elements that the unit looks up by identifier (and the label inside the submit
  control) are taken to exist, as the markup provides them. The form identifier, a
  constant of the script that its owner is told to replace, is a parameter. The handler
  begins with \<open>event.preventDefault()\<close> on every path. An error thrown out of the
  handler ends it where it stands; the state keeps what was done before and records the
  error among those the platform reports as uncaught.
\<close>

datatype js_error = URIError

datatype form_field = NameField | EmailField | SubjectField | MessageField

record request =
  url :: jsstring
  body_name :: jsstring
  body_email :: jsstring
  body_subject :: jsstring
  body_message :: jsstring

record form_state =
  nameField_value :: jsstring
  emailField_value :: jsstring
  subjectField_value :: jsstring
  messageField_value :: jsstring
  fieldError :: "form_field set"
  statusText :: jsstring
  statusClassName :: jsstring
  submitDisabled :: bool
  submitLabel :: jsstring
  bodyAnchors :: "jsstring list"
  errorTimers :: "form_field list"
  mailtoClicks :: "jsstring list"
  requests :: "request list"
  inFlight :: nat
  uncaught :: "js_error list"

definition UNSET_FORM_ID :: jsstring where
  "UNSET_FORM_ID = js ''YOUR_FORM_ID''"

definition ELLIPSIS :: jschar where
  "ELLIPSIS = 0x2026"

definition CHECK_MARK :: jschar where
  "CHECK_MARK = 0x2713"

definition EM_DASH :: jschar where
  "EM_DASH = 0x2014"

definition applyFieldError :: "form_field \<Rightarrow> form_state \<Rightarrow> form_state" where
  "applyFieldError inputElement s =
     s\<lparr>fieldError := insert inputElement (fieldError s),
       errorTimers := errorTimers s @ [inputElement]\<rparr>"

definition updateFormStatus :: "jsstring \<Rightarrow> jsstring \<Rightarrow> form_state \<Rightarrow> form_state" where
  "updateFormStatus message type s =
     s\<lparr>statusText := message,
       statusClassName := js ''form-status-message'' @
         (if type \<noteq> [] then js '' form-status-message--'' @ type else [])\<rparr>"

text \<open>One of the four checks: flag the field and lower \<open>formIsValid\<close> when it fails.\<close>

definition checkField :: "bool \<Rightarrow> form_field \<Rightarrow> form_state \<times> bool \<Rightarrow> form_state \<times> bool" where
  "checkField failed inputElement sv =
     (if failed then (applyFieldError inputElement (fst sv), False) else sv)"

fun joinWith :: "jsstring \<Rightarrow> jsstring list \<Rightarrow> jsstring" where
  "joinWith separator [] = []"
| "joinWith separator [x] = x"
| "joinWith separator (x # y # ys) = x @ separator @ joinWith separator (y # ys)"

text \<open>
  The platform's \<open>encodeURIComponent\<close>: a code unit of the unreserved set stands for
  itself; any other code point is encoded in UTF-8 and each octet written as \<open>%\<close> and two
  upper-case hexadecimal digits; a surrogate that is not half of a pair makes the call
  throw a URIError (the result \<open>None\<close>).
\<close>

definition uriUnreserved :: "jschar \<Rightarrow> bool" where
  "uriUnreserved c \<longleftrightarrow>
     (0x41 \<le> c \<and> c \<le> 0x5A) \<or> (0x61 \<le> c \<and> c \<le> 0x7A) \<or> (0x30 \<le> c \<and> c \<le> 0x39) \<or>
     c \<in> set [0x2D, 0x5F, 0x2E, 0x21, 0x7E, 0x2A, 0x27, 0x28, 0x29]"

definition isLeadSurrogate :: "jschar \<Rightarrow> bool" where
  "isLeadSurrogate c \<longleftrightarrow> 0xD800 \<le> c \<and> c \<le> 0xDBFF"

definition isTrailSurrogate :: "jschar \<Rightarrow> bool" where
  "isTrailSurrogate c \<longleftrightarrow> 0xDC00 \<le> c \<and> c \<le> 0xDFFF"

definition pairCodePoint :: "jschar \<Rightarrow> jschar \<Rightarrow> nat" where
  "pairCodePoint lead trail = (unat lead - 0xD800) * 0x400 + (unat trail - 0xDC00) + 0x10000"

definition utf8 :: "nat \<Rightarrow> nat list" where
  "utf8 cp =
     (if cp < 0x80 then [cp]
      else if cp < 0x800 then [0xC0 + cp div 0x40, 0x80 + cp mod 0x40]
      else if cp < 0x10000
      then [0xE0 + cp div 0x1000, 0x80 + cp div 0x40 mod 0x40, 0x80 + cp mod 0x40]
      else [0xF0 + cp div 0x40000, 0x80 + cp div 0x1000 mod 0x40,
            0x80 + cp div 0x40 mod 0x40, 0x80 + cp mod 0x40])"

definition hexDigit :: "nat \<Rightarrow> jschar" where
  "hexDigit n = of_nat (if n < 10 then 0x30 + n else 0x37 + n)"

definition percentEncode :: "nat list \<Rightarrow> jsstring" where
  "percentEncode octets =
     concat (map (\<lambda>octet. [0x25, hexDigit (octet div 16), hexDigit (octet mod 16)]) octets)"

fun encodeURIComponent :: "jsstring \<Rightarrow> jsstring option" where
  "encodeURIComponent [] = Some []"
| "encodeURIComponent (c # s) =
     (if uriUnreserved c then map_option (\<lambda>encoded. c # encoded) (encodeURIComponent s)
      else if isTrailSurrogate c then None
      else if isLeadSurrogate c
      then
        (case s of
           [] \<Rightarrow> None
         | d # s' \<Rightarrow>
             if isTrailSurrogate d
             then map_option (\<lambda>encoded. percentEncode (utf8 (pairCodePoint c d)) @ encoded)
                    (encodeURIComponent s')
             else None)
      else map_option (\<lambda>encoded. percentEncode (utf8 (unat c)) @ encoded)
             (encodeURIComponent s))"

text \<open>
  The target of the mailto anchor, when both calls of \<open>encodeURIComponent\<close> return, and
  the request handed to \<open>fetch\<close>.
\<close>

definition mailtoHref :: "jsstring \<Rightarrow> jsstring \<Rightarrow> jsstring \<Rightarrow> jsstring \<Rightarrow> jsstring option" where
  "mailtoHref nameValue emailValue subjectValue messageValue =
     (let mailtoBody =
            joinWith [0x0A] [messageValue, [], js ''---'',
              js ''From: '' @ nameValue @ js '' <'' @ emailValue @ js ''>'']
      in case encodeURIComponent subjectValue of
           None \<Rightarrow> None
         | Some encodedSubject \<Rightarrow>
             (case encodeURIComponent mailtoBody of
                None \<Rightarrow> None
              | Some encodedBody \<Rightarrow>
                  Some (js ''mailto:hello@mdkportfolio.dev'' @ js ''?subject='' @
                        encodedSubject @ js ''&body='' @ encodedBody)))"

definition formspreeRequest ::
    "jsstring \<Rightarrow> jsstring \<Rightarrow> jsstring \<Rightarrow> jsstring \<Rightarrow> jsstring \<Rightarrow> request" where
  "formspreeRequest FORMSPREE_FORM_ID nameValue emailValue subjectValue messageValue =
     \<lparr>url = js ''https://formspree.io/f/'' @ FORMSPREE_FORM_ID,
      body_name = nameValue, body_email = emailValue,
      body_subject = subjectValue, body_message = messageValue\<rparr>"

definition submitHandler :: "jsstring \<Rightarrow> form_state \<Rightarrow> form_state" where
  "submitHandler FORMSPREE_FORM_ID s =
     (let nameValue = trim (nameField_value s);
          emailValue = trim (emailField_value s);
          subjectValue = trim (subjectField_value s);
          messageValue = trim (messageField_value s);
          s0 = updateFormStatus [] [] s;
          (s4, formIsValid) =
            checkField (messageValue = []) MessageField
              (checkField (subjectValue = []) SubjectField
                (checkField (\<not> isValidEmailAddress emailValue) EmailField
                  (checkField (nameValue = []) NameField (s0, True))))
      in if \<not> formIsValid
         then updateFormStatus (js ''Please fill in all fields correctly.'') (js ''error'') s4
         else if FORMSPREE_FORM_ID = UNSET_FORM_ID
         then
           (case mailtoHref nameValue emailValue subjectValue messageValue of
              None \<Rightarrow> s4\<lparr>uncaught := uncaught s4 @ [URIError]\<rparr>
            | Some anchor \<Rightarrow>
                let s5 = s4\<lparr>bodyAnchors := bodyAnchors s4 @ [anchor]\<rparr>;
                    s6 = s5\<lparr>mailtoClicks := mailtoClicks s5 @ [anchor]\<rparr>;
                    s7 = s6\<lparr>bodyAnchors := butlast (bodyAnchors s6)\<rparr>
                in updateFormStatus (js ''Opening your email client'' @ [ELLIPSIS])
                     (js ''success'') s7)
         else
           let s5 = s4\<lparr>submitDisabled := True, submitLabel := js ''Sending'' @ [ELLIPSIS]\<rparr>
           in s5\<lparr>requests := requests s5 @
                  [formspreeRequest FORMSPREE_FORM_ID nameValue emailValue subjectValue
                     messageValue],
                inFlight := Suc (inFlight s5)\<rparr>)"

text \<open>
  How a request settles. The promise of \<open>fetch\<close> rejects (no response), or a response
  arrives with its \<open>ok\<close> flag and then \<open>response.json()\<close> either rejects (the body is not
  JSON) or yields the data; of the data the handler reads only the error text, present
  when \<open>result.data && result.data.error\<close> is truthy.
\<close>

datatype settlement =
    FetchRejected
  | BodyNotJson bool
  | JsonResponse bool "jsstring option"

definition resultHandler :: "bool \<Rightarrow> jsstring option \<Rightarrow> form_state \<Rightarrow> form_state" where
  "resultHandler httpOk dataError s =
     (let s1 = s\<lparr>submitDisabled := False, submitLabel := js ''Send message''\<rparr>
      in if httpOk
         then
           (updateFormStatus
              ([CHECK_MARK] @ js '' Message sent '' @ [EM_DASH] @ js '' I'' @ [0x27] @
                 js ''ll reply soon!'')
              (js ''success'') s1)
             \<lparr>nameField_value := [], emailField_value := [], subjectField_value := [],
              messageField_value := []\<rparr>
         else
           updateFormStatus
             (case dataError of
                Some serverError \<Rightarrow> serverError
              | None \<Rightarrow> js ''Something went wrong. Please try again.'')
             (js ''error'') s1)"

definition catchHandler :: "form_state \<Rightarrow> form_state" where
  "catchHandler s =
     updateFormStatus (js ''Network error. Please email hello@mdkportfolio.dev directly.'')
       (js ''error'') (s\<lparr>submitDisabled := False, submitLabel := js ''Send message''\<rparr>)"

fun settle :: "settlement \<Rightarrow> form_state \<Rightarrow> form_state" where
  "settle FetchRejected s = catchHandler s"
| "settle (BodyNotJson httpOk) s = catchHandler s"
| "settle (JsonResponse httpOk dataError) s = resultHandler httpOk dataError s"

text \<open>
  The lifetime of the form: the user edits a field, submits, a pending request settles,
  or the timer of an error indicator fires.
\<close>

datatype form_event =
    Input form_field jsstring
  | Submit
  | Settle settlement
  | ErrorTimeout form_field

definition setField :: "form_field \<Rightarrow> jsstring \<Rightarrow> form_state \<Rightarrow> form_state" where
  "setField f v s =
     (case f of
        NameField \<Rightarrow> s\<lparr>nameField_value := v\<rparr>
      | EmailField \<Rightarrow> s\<lparr>emailField_value := v\<rparr>
      | SubjectField \<Rightarrow> s\<lparr>subjectField_value := v\<rparr>
      | MessageField \<Rightarrow> s\<lparr>messageField_value := v\<rparr>)"

fun formStep :: "jsstring \<Rightarrow> form_event \<Rightarrow> form_state \<Rightarrow> form_state" where
  "formStep formId (Input f v) s = setField f v s"
| "formStep formId Submit s = submitHandler formId s"
| "formStep formId (Settle outcome) s =
     (if inFlight s = 0 then s else (settle outcome s)\<lparr>inFlight := inFlight s - 1\<rparr>)"
| "formStep formId (ErrorTimeout f) s =
     (if f \<in> set (errorTimers s)
      then s\<lparr>fieldError := fieldError s - {f}, errorTimers := remove1 f (errorTimers s)\<rparr>
      else s)"

definition formRun :: "jsstring \<Rightarrow> form_event list \<Rightarrow> form_state \<Rightarrow> form_state" where
  "formRun formId events s = fold (formStep formId) events s"

text \<open>The conditions of the four checks, on the values as the handler reads them.\<close>

definition fieldInvalid :: "form_state \<Rightarrow> form_field \<Rightarrow> bool" where
  "fieldInvalid s f =
     (case f of
        NameField \<Rightarrow> trim (nameField_value s) = []
      | EmailField \<Rightarrow> \<not> isValidEmailAddress (trim (emailField_value s))
      | SubjectField \<Rightarrow> trim (subjectField_value s) = []
      | MessageField \<Rightarrow> trim (messageField_value s) = [])"

definition allFieldsValid :: "form_state \<Rightarrow> bool" where
  "allFieldsValid s \<longleftrightarrow>
     \<not> fieldInvalid s NameField \<and> \<not> fieldInvalid s EmailField \<and>
     \<not> fieldInvalid s SubjectField \<and> \<not> fieldInvalid s MessageField"

text \<open>A form at rest, filled in by a visitor, and the same form with two fields at fault.\<close>

definition idleForm :: form_state where
  "idleForm =
     \<lparr>nameField_value = js ''Ann'', emailField_value = js '' a@b.c '',
      subjectField_value = js ''Hi'', messageField_value = js ''Hello there'',
      fieldError = {}, statusText = [], statusClassName = js ''form-status-message'',
      submitDisabled = False, submitLabel = js ''Send message'', bodyAnchors = [],
      errorTimers = [], mailtoClicks = [], requests = [], inFlight = 0, uncaught = []\<rparr>"

definition faultyForm :: form_state where
  "faultyForm = idleForm\<lparr>nameField_value := js ''  '', emailField_value := js ''a@b''\<rparr>"

text \<open>
  The filled form with an unpaired surrogate as the whole message, and with one at the end
  of the subject.
\<close>

definition surrogateMessageForm :: form_state where
  "surrogateMessageForm = idleForm\<lparr>messageField_value := [0xD800]\<rparr>"


text \<open>The fields at fault, in the order of the checks, and the four values together.\<close>

definition invalidFields :: "form_state \<Rightarrow> form_field list" where
  "invalidFields s =
     filter (fieldInvalid s) [NameField, EmailField, SubjectField, MessageField]"

definition fieldValues :: "form_state \<Rightarrow> jsstring \<times> jsstring \<times> jsstring \<times> jsstring" where
  "fieldValues s =
     (nameField_value s, emailField_value s, subjectField_value s, messageField_value s)"

section \<open>Example pages\<close>

text \<open>A page whose sections are all missing, scrolled a little.\<close>

definition emptyPage :: view where
  "emptyPage =
     \<lparr>pageYOffset = 100, innerHeight = 1000, getElementById = (\<lambda>_. None),
      siteNavHeight = None\<rparr>"

text \<open>A desktop and a mobile navigation, each with a link to the first two sections.\<close>

definition duplicatedLinks :: "nav_link list" where
  "duplicatedLinks = markupLinks [js ''home'', js ''about'', js ''home'', js ''about'']"

text \<open>
  The example page scrolled to the double nearest 1292.8 in a window 768 high, and a page
  scrolled to the double nearest 250.6 whose second section stands at the double nearest
  1350.3 below the top of the window.
\<close>

definition roundingView :: view where
  "roundingView =
     \<lparr>pageYOffset = 5685794529555251 / 4398046511104, innerHeight = 768,
      getElementById = exampleSections, siteNavHeight = Some 64\<rparr>"

definition fractionalLayout :: layout where
  "fractionalLayout = \<lparr>offsetTop = 1601, rectTop = 5938682203943731 / 4398046511104\<rparr>"

definition fractionalView :: view where
  "fractionalView =
     \<lparr>pageYOffset = 8817203645461299 / 35184372088832, innerHeight = 768,
      getElementById = (\<lambda>i. if i = js ''about'' then Some fractionalLayout else None),
      siteNavHeight = Some 64\<rparr>"

text \<open>A click on an icon inside a link to the second section, with the menu open.\<close>

definition iconInAboutLink :: "element list" where
  "iconInAboutLink =
     [\<lparr>tagName = ''svg'', href = None\<rparr>,
      \<lparr>tagName = ''a'', href = Some (js ''#about'')\<rparr>,
      \<lparr>tagName = ''nav'', href = None\<rparr>]"

definition openMenu :: menu where
  "openMenu =
     \<lparr>mobileMenuPanel = Some \<lparr>is_open = True, aria_hidden = Some (js ''false'')\<rparr>,
      hamburgerButton = Some \<lparr>aria_expanded = Some (js ''true''),
        aria_label = Some (js ''Close navigation menu'')\<rparr>\<rparr>"

section \<open>The email validator\<close>

lemma atom_plain: "atomMatches (NegatedClass [ClassWhiteSpace, ClassChar AT]) c = plainChar c"
  by (simp add: plainChar_def)

lemma regexTest_plus:
  "regexTest ((a, OneOrMore) # r) s \<longleftrightarrow>
     (\<exists>u v. s = u @ v \<and> u \<noteq> [] \<and> list_all (atomMatches a) u \<and> regexTest r v)"
proof (induction s)
  case Nil
  then show ?case by simp
next
  case (Cons c s)
  show ?case
  proof
    assume "regexTest ((a, OneOrMore) # r) (c # s)"
    then have c: "atomMatches a c" and d: "regexTest ((a, OneOrMore) # r) s \<or> regexTest r s"
      by simp_all
    from d show "\<exists>u v. c # s = u @ v \<and> u \<noteq> [] \<and> list_all (atomMatches a) u \<and> regexTest r v"
    proof
      assume "regexTest ((a, OneOrMore) # r) s"
      with Cons.IH obtain u v where "s = u @ v" "u \<noteq> []" "list_all (atomMatches a) u" "regexTest r v"
        by blast
      with c have "c # s = (c # u) @ v \<and> c # u \<noteq> [] \<and> list_all (atomMatches a) (c # u) \<and> regexTest r v"
        by simp
      then show ?thesis by blast
    next
      assume "regexTest r s"
      with c have "c # s = [c] @ s \<and> [c] \<noteq> [] \<and> list_all (atomMatches a) [c] \<and> regexTest r s"
        by simp
      then show ?thesis by blast
    qed
  next
    assume "\<exists>u v. c # s = u @ v \<and> u \<noteq> [] \<and> list_all (atomMatches a) u \<and> regexTest r v"
    then obtain u v where uv: "c # s = u @ v" "u \<noteq> []" "list_all (atomMatches a) u" "regexTest r v"
      by blast
    then obtain u' where u: "u = c # u'" by (cases u) auto
    with uv have s: "s = u' @ v" and c: "atomMatches a c" and u': "list_all (atomMatches a) u'"
      by simp_all
    show "regexTest ((a, OneOrMore) # r) (c # s)"
    proof (cases "u' = []")
      case True
      with s uv c show ?thesis by simp
    next
      case False
      with s u' uv Cons.IH have "regexTest ((a, OneOrMore) # r) s" by blast
      with c show ?thesis by simp
    qed
  qed
qed

lemma regexTest_once:
  "regexTest ((a, Once) # r) s \<longleftrightarrow> (\<exists>c v. s = c # v \<and> atomMatches a c \<and> regexTest r v)"
  by (cases s) auto

lemma regexTest_last_plus:
  "regexTest [(a, OneOrMore)] s \<longleftrightarrow> s \<noteq> [] \<and> list_all (atomMatches a) s"
  by (auto simp add: regexTest_plus)

lemma email_pattern_shape:
  "isValidEmailAddress s \<longleftrightarrow>
     (\<exists>l x y. s = l @ [AT] @ x @ [DOT] @ y \<and> l \<noteq> [] \<and> x \<noteq> [] \<and> y \<noteq> [] \<and>
        list_all plainChar l \<and> list_all plainChar x \<and> list_all plainChar y)"
  (is "?L \<longleftrightarrow> ?R")
proof
  let ?N = "NegatedClass [ClassWhiteSpace, ClassChar AT]"
  assume ?L
  then obtain l v1 where 1: "s = l @ v1" "l \<noteq> []" "list_all (atomMatches ?N) l"
      "regexTest [(Literal AT, Once), (?N, OneOrMore), (Literal DOT, Once), (?N, OneOrMore)] v1"
    unfolding isValidEmailAddress_def EMAIL_PATTERN_def regexTest_plus by blast
  from 1(4) obtain v2 where 2: "v1 = AT # v2"
      "regexTest [(?N, OneOrMore), (Literal DOT, Once), (?N, OneOrMore)] v2"
    unfolding regexTest_once by auto
  from 2(2) obtain x v3 where 3: "v2 = x @ v3" "x \<noteq> []" "list_all (atomMatches ?N) x"
      "regexTest [(Literal DOT, Once), (?N, OneOrMore)] v3"
    unfolding regexTest_plus by blast
  from 3(4) obtain y where 4: "v3 = DOT # y" "regexTest [(?N, OneOrMore)] y"
    unfolding regexTest_once by auto
  from 4(2) have 5: "y \<noteq> []" "list_all (atomMatches ?N) y"
    unfolding regexTest_last_plus by simp_all
  have "s = l @ [AT] @ x @ [DOT] @ y"
    using 1(1) 2(1) 3(1) 4(1) by simp
  moreover have "list_all plainChar l" "list_all plainChar x" "list_all plainChar y"
    using 1(3) 3(3) 5(2) by (simp_all add: atom_plain[abs_def] del: atomMatches.simps)
  ultimately show ?R using 1(2) 3(2) 5(1) by blast
next
  let ?N = "NegatedClass [ClassWhiteSpace, ClassChar AT]"
  assume ?R
  then obtain l x y where s: "s = l @ [AT] @ x @ [DOT] @ y" and ne: "l \<noteq> []" "x \<noteq> []" "y \<noteq> []"
    and pl: "list_all plainChar l" "list_all plainChar x" "list_all plainChar y"
    by blast
  from pl have al: "list_all (atomMatches ?N) l" "list_all (atomMatches ?N) x"
      "list_all (atomMatches ?N) y"
    by (simp_all add: atom_plain[abs_def] del: atomMatches.simps)
  have 5: "regexTest [(?N, OneOrMore)] y"
    unfolding regexTest_last_plus using ne(3) al(3) by simp
  then have 4: "regexTest [(Literal DOT, Once), (?N, OneOrMore)] ([DOT] @ y)"
    by simp
  have 3: "regexTest [(?N, OneOrMore), (Literal DOT, Once), (?N, OneOrMore)] (x @ [DOT] @ y)"
    unfolding regexTest_plus [of ?N] using ne(2) al(2) 4 by blast
  then have 2: "regexTest [(Literal AT, Once), (?N, OneOrMore), (Literal DOT, Once), (?N, OneOrMore)]
      ([AT] @ x @ [DOT] @ y)"
    by simp
  have "regexTest EMAIL_PATTERN (l @ [AT] @ x @ [DOT] @ y)"
    unfolding EMAIL_PATTERN_def regexTest_plus [of ?N] using ne(1) al(1) 2 by blast
  then show ?L by (simp add: isValidEmailAddress_def s)
qed

lemma email_examples:
  "isValidEmailAddress (js ''a@b.c'')" "\<not> isValidEmailAddress (js ''abc'')"
  "\<not> isValidEmailAddress (js ''a@b'')" "\<not> isValidEmailAddress (js ''@b.c'')"
  by (simp_all add: isValidEmailAddress_def EMAIL_PATTERN_def js_def AT_def DOT_def
      isWhiteSpace_def)

lemma specEmailShape_iff:
  "specEmailShape s \<longleftrightarrow>
     (\<exists>l d. s = l @ AT # d \<and> l \<noteq> [] \<and> list_all plainChar l \<and> list_all plainChar d \<and> DOT \<in> set d)"
  (is "?L \<longleftrightarrow> ?R")
proof
  assume L: ?L
  let ?l = "takeWhile (\<lambda>c. c \<noteq> AT) s"
  let ?r = "dropWhile (\<lambda>c. c \<noteq> AT) s"
  from L have r: "?r \<noteq> []" by (simp add: specEmailShape_def Let_def)
  then have "hd ?r = AT" using hd_dropWhile [of "\<lambda>c. c \<noteq> AT" s] by simp
  with r have "?r = AT # tl ?r" by (cases ?r) simp_all
  then have "s = ?l @ AT # tl ?r" using takeWhile_dropWhile_id [of "\<lambda>c. c \<noteq> AT" s] by simp
  with L show ?R unfolding specEmailShape_def Let_def by blast
next
  assume ?R
  then obtain l d where s: "s = l @ AT # d" and l: "l \<noteq> []" "list_all plainChar l"
    and d: "list_all plainChar d" "DOT \<in> set d" by blast
  from l(2) have "\<forall>c\<in>set l. c \<noteq> AT" by (simp add: list_all_iff plainChar_def)
  then have "takeWhile (\<lambda>c. c \<noteq> AT) s = l" "dropWhile (\<lambda>c. c \<noteq> AT) s = AT # d"
    unfolding s by (simp_all add: takeWhile_append2 dropWhile_append2)
  with l d show ?L by (simp add: specEmailShape_def)
qed

text \<open>
  C2, as amended. \<open>isValidEmailAddress\<close> accepts an input exactly when it is a non-empty
  local part free of whitespace and \<open>@\<close>, then \<open>@\<close>, then a domain part free of
  whitespace and \<open>@\<close> in which some dot has at least one character before it and at least
  one after it. It accepts \<open>a@b.c\<close> and rejects \<open>abc\<close>, \<open>a@b\<close> and \<open>@b.c\<close>.
\<close>

theorem isValidEmailAddress_accepts:
  "(isValidEmailAddress s \<longleftrightarrow>
      (\<exists>l x y. s = l @ [AT] @ x @ [DOT] @ y \<and> l \<noteq> [] \<and> x \<noteq> [] \<and> y \<noteq> [] \<and>
         list_all plainChar l \<and> list_all plainChar x \<and> list_all plainChar y)) \<and>
   isValidEmailAddress (js ''a@b.c'') \<and> \<not> isValidEmailAddress (js ''abc'') \<and>
   \<not> isValidEmailAddress (js ''a@b'') \<and> \<not> isValidEmailAddress (js ''@b.c'')"
  using email_pattern_shape [of s] email_examples by blast

text \<open>
  C2, as first stated, asks of the domain part only that it contain a dot. The input
  \<open>a@.c\<close> has that shape (local part \<open>a\<close>, domain part \<open>.c\<close>) and is rejected: the
  pattern wants a character between the \<open>@\<close> and the dot.
\<close>

theorem email_shape_counterexample:
  "specEmailShape (js ''a@.c'') \<and> \<not> isValidEmailAddress (js ''a@.c'')"
  by (simp add: isValidEmailAddress_def EMAIL_PATTERN_def js_def AT_def DOT_def
      isWhiteSpace_def specEmailShape_def plainChar_def)

section \<open>The submit handler\<close>

lemma checks_result:
  "checkField (trim (messageField_value s) = []) MessageField
     (checkField (trim (subjectField_value s) = []) SubjectField
       (checkField (\<not> isValidEmailAddress (trim (emailField_value s))) EmailField
         (checkField (trim (nameField_value s) = []) NameField (s0, True))))
   = (s0\<lparr>fieldError := fieldError s0 \<union> set (invalidFields s),
          errorTimers := errorTimers s0 @ invalidFields s\<rparr>, allFieldsValid s)"
  by (simp add: checkField_def applyFieldError_def invalidFields_def fieldInvalid_def
      allFieldsValid_def insert_commute)

lemma submit_invalid:
  "\<not> allFieldsValid s \<Longrightarrow>
   submitHandler formId s =
     s\<lparr>fieldError := fieldError s \<union> set (invalidFields s),
       errorTimers := errorTimers s @ invalidFields s,
       statusText := js ''Please fill in all fields correctly.'',
       statusClassName := js ''form-status-message form-status-message--error''\<rparr>"
  by (simp add: submitHandler_def Let_def checks_result updateFormStatus_def js_def)

lemma no_invalid: "allFieldsValid s \<Longrightarrow> invalidFields s = []"
  by (simp add: allFieldsValid_def invalidFields_def)

lemma submit_mailto:
  "allFieldsValid s \<Longrightarrow>
   mailtoHref (trim (nameField_value s)) (trim (emailField_value s))
     (trim (subjectField_value s)) (trim (messageField_value s)) = Some anchor \<Longrightarrow>
   submitHandler UNSET_FORM_ID s =
     s\<lparr>statusText := js ''Opening your email client'' @ [ELLIPSIS],
       statusClassName := js ''form-status-message form-status-message--success'',
       mailtoClicks := mailtoClicks s @ [anchor]\<rparr>"
  by (simp add: submitHandler_def Let_def checks_result updateFormStatus_def js_def no_invalid)

lemma submit_throws:
  "allFieldsValid s \<Longrightarrow>
   mailtoHref (trim (nameField_value s)) (trim (emailField_value s))
     (trim (subjectField_value s)) (trim (messageField_value s)) = None \<Longrightarrow>
   submitHandler UNSET_FORM_ID s =
     s\<lparr>statusText := [], statusClassName := js ''form-status-message'',
       uncaught := uncaught s @ [URIError]\<rparr>"
  by (simp add: submitHandler_def Let_def checks_result updateFormStatus_def no_invalid)

lemma submit_remote:
  "allFieldsValid s \<Longrightarrow> formId \<noteq> UNSET_FORM_ID \<Longrightarrow>
   submitHandler formId s =
     s\<lparr>statusText := [], statusClassName := js ''form-status-message'',
       submitDisabled := True, submitLabel := js ''Sending'' @ [ELLIPSIS],
       requests := requests s @
         [formspreeRequest formId (trim (nameField_value s)) (trim (emailField_value s))
            (trim (subjectField_value s)) (trim (messageField_value s))],
       inFlight := Suc (inFlight s)\<rparr>"
  by (simp add: submitHandler_def Let_def checks_result updateFormStatus_def no_invalid)

lemma mailtoHref_shape:
  "mailtoHref nameValue emailValue subjectValue messageValue = Some anchor \<Longrightarrow>
   \<exists>encodedSubject encodedBody.
     encodeURIComponent subjectValue = Some encodedSubject \<and>
     encodeURIComponent
       (messageValue @ [0x0A] @ [0x0A] @ js ''---'' @ [0x0A] @
        js ''From: '' @ nameValue @ js '' <'' @ emailValue @ js ''>'') = Some encodedBody \<and>
     anchor = js ''mailto:hello@mdkportfolio.dev?subject='' @ encodedSubject @
       js ''&body='' @ encodedBody"
  by (auto simp add: mailtoHref_def js_def split: option.splits)

lemmas form_eval = allFieldsValid_def fieldInvalid_def idleForm_def trim_def js_def
  isWhiteSpace_def isValidEmailAddress_def EMAIL_PATTERN_def AT_def DOT_def

lemmas uri_eval = uriUnreserved_def isTrailSurrogate_def isLeadSurrogate_def utf8_def
  percentEncode_def hexDigit_def pairCodePoint_def

lemma idle_valid: "allFieldsValid idleForm"
  by (simp add: form_eval)

lemma idle_mailtoHref:
  "mailtoHref (trim (nameField_value idleForm)) (trim (emailField_value idleForm))
     (trim (subjectField_value idleForm)) (trim (messageField_value idleForm)) =
   Some (js ''mailto:hello@mdkportfolio.dev?subject=Hi&body=Hello%20there%0A%0A---%0AFrom%3A%20Ann%20%3Ca%40b.c%3E'')"
  by (simp add: mailtoHref_def form_eval uri_eval)

lemma faulty_invalid: "invalidFields faultyForm = [NameField, EmailField]"
  by (simp add: invalidFields_def faultyForm_def form_eval)

lemma faulty_not_valid: "\<not> allFieldsValid faultyForm"
  by (simp add: faultyForm_def form_eval)

lemma surrogate_message_valid: "allFieldsValid surrogateMessageForm"
  by (simp add: surrogateMessageForm_def form_eval)

lemma surrogate_message_href:
  "mailtoHref (trim (nameField_value surrogateMessageForm))
     (trim (emailField_value surrogateMessageForm))
     (trim (subjectField_value surrogateMessageForm))
     (trim (messageField_value surrogateMessageForm)) = None"
  by (simp add: mailtoHref_def surrogateMessageForm_def form_eval uri_eval)



text \<open>
  The two paths of a valid submission where the handler runs to its end: with the
  placeholder identifier and both encodings defined, one click on the mailto target and
  no request; with another identifier, one request and no mailto anchor.
\<close>

lemma valid_submission_paths:
  "allFieldsValid s \<Longrightarrow>
   (mailtoHref (trim (nameField_value s)) (trim (emailField_value s))
      (trim (subjectField_value s)) (trim (messageField_value s)) = Some anchor \<longrightarrow>
      mailtoClicks (submitHandler UNSET_FORM_ID s) = mailtoClicks s @ [anchor] \<and>
      requests (submitHandler UNSET_FORM_ID s) = requests s \<and>
      inFlight (submitHandler UNSET_FORM_ID s) = inFlight s) \<and>
   (formId \<noteq> UNSET_FORM_ID \<longrightarrow>
      requests (submitHandler formId s) = requests s @
        [formspreeRequest formId (trim (nameField_value s)) (trim (emailField_value s))
           (trim (subjectField_value s)) (trim (messageField_value s))] \<and>
      inFlight (submitHandler formId s) = Suc (inFlight s) \<and>
      mailtoClicks (submitHandler formId s) = mailtoClicks s \<and>
      bodyAnchors (submitHandler formId s) = bodyAnchors s)"
  by (simp add: submit_mailto submit_remote)

lemma idle_submission_clicks:
  "mailtoClicks (submitHandler UNSET_FORM_ID idleForm) =
     [js ''mailto:hello@mdkportfolio.dev?subject=Hi&body=Hello%20there%0A%0A---%0AFrom%3A%20Ann%20%3Ca%40b.c%3E'']"
  using submit_mailto [OF idle_valid idle_mailtoHref] by (simp add: idleForm_def)

text \<open>
  C1. A valid submission with the placeholder identifier is to click exactly one mailto
  anchor. The four checks accept a message that is a single unpaired surrogate;
  \<open>encodeURIComponent\<close> then throws while the target is put together, before the anchor
  exists: the handler ends with no anchor, no click and no request, and the error is
  uncaught.
\<close>

theorem unpaired_surrogate_stops_mailto:
  "allFieldsValid surrogateMessageForm \<and>
   mailtoClicks (submitHandler UNSET_FORM_ID surrogateMessageForm) = [] \<and>
   bodyAnchors (submitHandler UNSET_FORM_ID surrogateMessageForm) = [] \<and>
   requests (submitHandler UNSET_FORM_ID surrogateMessageForm) = [] \<and>
   uncaught (submitHandler UNSET_FORM_ID surrogateMessageForm) = [URIError]"
  using surrogate_message_valid
    submit_throws [OF surrogate_message_valid surrogate_message_href]
  by (simp add: surrogateMessageForm_def idleForm_def)

text \<open>
  C3. When at least one field is at fault, every field at fault carries the error class
  after the one pass (and a timer that removes it), the status element shows the one
  aggregate message, and the handler returns with nothing else changed: no request, no
  mailto anchor, no change of the submit control or of the values.
\<close>

theorem invalid_submission_aborts:
  "\<not> allFieldsValid s \<Longrightarrow>
   (\<forall>f. fieldInvalid s f \<longrightarrow> f \<in> fieldError (submitHandler formId s)) \<and>
   invalidFields s \<noteq> [] \<and>
   fieldError (submitHandler formId s) = fieldError s \<union> set (invalidFields s) \<and>
   errorTimers (submitHandler formId s) = errorTimers s @ invalidFields s \<and>
   statusText (submitHandler formId s) = js ''Please fill in all fields correctly.'' \<and>
   statusClassName (submitHandler formId s) =
     js ''form-status-message form-status-message--error'' \<and>
   requests (submitHandler formId s) = requests s \<and>
   inFlight (submitHandler formId s) = inFlight s \<and>
   mailtoClicks (submitHandler formId s) = mailtoClicks s \<and>
   bodyAnchors (submitHandler formId s) = bodyAnchors s \<and>
   submitDisabled (submitHandler formId s) = submitDisabled s \<and>
   fieldValues (submitHandler formId s) = fieldValues s"
proof -
  assume a: "\<not> allFieldsValid s"
  have m: "\<And>f. fieldInvalid s f \<longleftrightarrow> f \<in> set (invalidFields s)"
  proof -
    fix f show "fieldInvalid s f \<longleftrightarrow> f \<in> set (invalidFields s)"
      by (cases f) (auto simp add: invalidFields_def)
  qed
  have ne: "invalidFields s \<noteq> []"
    using a by (auto simp add: allFieldsValid_def invalidFields_def)
  show ?thesis
    using ne by (simp add: submit_invalid [OF a] m fieldValues_def)
qed

theorem invalid_submission_aborts_witness:
  "\<not> allFieldsValid faultyForm \<and>
   fieldInvalid faultyForm NameField \<and> fieldInvalid faultyForm EmailField \<and>
   fieldError (submitHandler UNSET_FORM_ID faultyForm) = {NameField, EmailField} \<and>
   requests (submitHandler UNSET_FORM_ID faultyForm) = [] \<and>
   mailtoClicks (submitHandler UNSET_FORM_ID faultyForm) = []"
proof -
  have i: "fieldInvalid faultyForm NameField" "fieldInvalid faultyForm EmailField"
    by (simp_all add: faultyForm_def form_eval)
  have e: "fieldError faultyForm = {}" "requests faultyForm = []" "mailtoClicks faultyForm = []"
    by (simp_all add: faultyForm_def idleForm_def)
  show ?thesis
    using faulty_not_valid i e faulty_invalid
      invalid_submission_aborts [OF faulty_not_valid, of UNSET_FORM_ID]
    by auto
qed

text \<open>
  On the mailto path the four values are as before, whether the handler runs to its end
  or ends in the uncaught error; when it runs to its end it has changed the status
  element and recorded the one click, and the anchor it attached to the body is gone.
\<close>

lemma mailto_path_frame:
  "allFieldsValid s \<Longrightarrow>
   fieldValues (submitHandler UNSET_FORM_ID s) = fieldValues s \<and>
   bodyAnchors (submitHandler UNSET_FORM_ID s) = bodyAnchors s \<and>
   (mailtoHref (trim (nameField_value s)) (trim (emailField_value s))
      (trim (subjectField_value s)) (trim (messageField_value s)) = Some anchor \<longrightarrow>
    submitHandler UNSET_FORM_ID s =
      s\<lparr>statusText := js ''Opening your email client'' @ [ELLIPSIS],
        statusClassName := js ''form-status-message form-status-message--success'',
        mailtoClicks := mailtoClicks s @ [anchor]\<rparr>)"
  by (cases "mailtoHref (trim (nameField_value s)) (trim (emailField_value s))
      (trim (subjectField_value s)) (trim (messageField_value s))")
    (simp_all add: submit_mailto submit_throws fieldValues_def)


section \<open>Settling a request\<close>

text \<open>
  What each way of settling does to the four values: the result handler clears them on a
  response with the success flag and leaves them on one with the failure flag; the catch
  handler leaves them.
\<close>

lemma settle_values:
  "fieldValues (settle (JsonResponse True dataError) s) = ([], [], [], []) \<and>
   fieldValues (settle (JsonResponse False dataError) s) = fieldValues s \<and>
   fieldValues (settle (BodyNotJson httpOk) s) = fieldValues s \<and>
   fieldValues (settle FetchRejected s) = fieldValues s"
  by (simp add: fieldValues_def resultHandler_def catchHandler_def updateFormStatus_def)

lemma settle_enables: "\<not> submitDisabled (settle outcome s)"
  by (cases outcome) (simp_all add: resultHandler_def catchHandler_def updateFormStatus_def Let_def)

lemma submit_disabled_iff:
  "submitDisabled (submitHandler formId s) \<longleftrightarrow>
     submitDisabled s \<or> (allFieldsValid s \<and> formId \<noteq> UNSET_FORM_ID)"
proof (cases "allFieldsValid s")
  case True
  show ?thesis
  proof (cases "formId = UNSET_FORM_ID")
    case u: True
    show ?thesis
      by (cases "mailtoHref (trim (nameField_value s)) (trim (emailField_value s))
          (trim (subjectField_value s)) (trim (messageField_value s))")
        (simp_all add: u submit_mailto [OF True] submit_throws [OF True])
  next
    case False
    with True show ?thesis by (simp add: submit_remote)
  qed
next
  case False
  then show ?thesis by (simp add: submit_invalid)
qed

lemma submit_inFlight:
  "inFlight (submitHandler formId s) =
     (if allFieldsValid s \<and> formId \<noteq> UNSET_FORM_ID then Suc (inFlight s) else inFlight s)"
proof (cases "allFieldsValid s")
  case True
  show ?thesis
  proof (cases "formId = UNSET_FORM_ID")
    case u: True
    show ?thesis
      by (cases "mailtoHref (trim (nameField_value s)) (trim (emailField_value s))
          (trim (subjectField_value s)) (trim (messageField_value s))")
        (simp_all add: u submit_mailto [OF True] submit_throws [OF True])
  next
    case False
    with True show ?thesis by (simp add: submit_remote)
  qed
next
  case False
  then show ?thesis by (simp add: submit_invalid)
qed

text \<open>
  C4. A successful response is to clear the four fields. The filled form is submitted to
  a configured endpoint, which answers with the success flag and a body that is not
  JSON: \<open>response.json()\<close> rejects, the result handler is skipped, and the catch handler
  written for network failures runs. The values stay and the status reports a network
  error.
\<close>

theorem success_not_json_keeps_values:
  "fieldValues (formRun (js ''xabcdefg'') [Submit, Settle (BodyNotJson True)] idleForm) =
     (js ''Ann'', js '' a@b.c '', js ''Hi'', js ''Hello there'') \<and>
   statusText (formRun (js ''xabcdefg'') [Submit, Settle (BodyNotJson True)] idleForm) =
     js ''Network error. Please email hello@mdkportfolio.dev directly.'' \<and>
   length (requests (formRun (js ''xabcdefg'') [Submit, Settle (BodyNotJson True)] idleForm)) = 1"
proof -
  have n: "js ''xabcdefg'' \<noteq> UNSET_FORM_ID" by (simp add: UNSET_FORM_ID_def js_def)
  show ?thesis
    apply (simp add: formRun_def submit_remote [OF idle_valid n])
    apply (simp add: catchHandler_def updateFormStatus_def fieldValues_def idleForm_def)
    done
qed

lemma step_keeps_in_flight:
  assumes "submitDisabled s \<longrightarrow> 0 < inFlight s"
  shows "submitDisabled (formStep formId ev s) \<longrightarrow> 0 < inFlight (formStep formId ev s)"
proof (cases ev)
  case (Input f v)
  with assms show ?thesis by (cases f) (simp_all add: setField_def)
next
  case Submit
  with assms show ?thesis by (auto simp add: submit_disabled_iff submit_inFlight)
next
  case (Settle outcome)
  with assms show ?thesis by (auto simp add: settle_enables)
next
  case (ErrorTimeout f)
  with assms show ?thesis by simp
qed

lemma run_keeps_in_flight:
  "(submitDisabled s \<longrightarrow> 0 < inFlight s) \<Longrightarrow>
   submitDisabled (formRun formId events s) \<longrightarrow> 0 < inFlight (formRun formId events s)"
  unfolding formRun_def
proof (induction events arbitrary: s)
  case Nil
  then show ?case by simp
next
  case (Cons ev events)
  from Cons.prems
  have "submitDisabled (formStep formId ev s) \<longrightarrow> 0 < inFlight (formStep formId ev s)"
    by (rule step_keeps_in_flight)
  then show ?case using Cons.IH by simp
qed

text \<open>
  C5. The handler turns the submit control's disabled flag on only when it starts a remote
  submission; every way a request settles turns it off; and over any sequence of events
  from a form at rest the flag is on only while a request is in flight, so it is off
  whenever none is.
\<close>

theorem submit_control_restored:
  "(submitDisabled (submitHandler formId s) \<longleftrightarrow>
      submitDisabled s \<or> (allFieldsValid s \<and> formId \<noteq> UNSET_FORM_ID)) \<and>
   \<not> submitDisabled (settle outcome s) \<and>
   (0 < inFlight s \<longrightarrow> \<not> submitDisabled (formStep formId (Settle outcome) s)) \<and>
   (\<not> submitDisabled s \<and> inFlight s = 0 \<longrightarrow>
      (submitDisabled (formRun formId events s) \<longrightarrow>
         0 < inFlight (formRun formId events s)))"
  using run_keeps_in_flight [of s formId events]
  by (simp add: submit_disabled_iff settle_enables)

theorem submit_control_restored_witness:
  "\<not> submitDisabled idleForm \<and> inFlight idleForm = 0 \<and>
   submitDisabled (formRun (js ''xabcdefg'') [Submit] idleForm) \<and>
   0 < inFlight (formRun (js ''xabcdefg'') [Submit] idleForm) \<and>
   0 < inFlight (submitHandler (js ''xabcdefg'') idleForm) \<and>
   \<not> submitDisabled (formStep (js ''xabcdefg'') (Settle (BodyNotJson False))
        (submitHandler (js ''xabcdefg'') idleForm))"
proof -
  have n: "js ''xabcdefg'' \<noteq> UNSET_FORM_ID" by (simp add: UNSET_FORM_ID_def js_def)
  have i: "\<not> submitDisabled idleForm" "inFlight idleForm = 0" by (simp_all add: idleForm_def)
  have d: "submitDisabled (formRun (js ''xabcdefg'') [Submit] idleForm)"
    using submit_control_restored [of "js ''xabcdefg''" idleForm] idle_valid n
    by (simp add: formRun_def)
  have f: "0 < inFlight (submitHandler (js ''xabcdefg'') idleForm)"
    using submit_control_restored [of "js ''xabcdefg''" idleForm _ "[Submit]"] i d
    by (simp add: formRun_def)
  show ?thesis
    using i d f
      submit_control_restored [of "js ''xabcdefg''"
        "submitHandler (js ''xabcdefg'') idleForm" "BodyNotJson False"]
    by (simp add: formRun_def)
qed

section \<open>Double arithmetic on the example pages\<close>

lemmas round_eval = roundDouble_def roundAtExponent_def binaryExponent.simps pow2_def
  roundHalfEven_def Let_def

lemma double_0_4: "roundDouble (4 / 10) = Finite DOUBLE_0_4"
  by (simp add: round_eval DOUBLE_0_4_def)

lemma trigger_900: "triggerLine (exampleView 900) = Finite 1300"
  by (simp add: triggerLine_def exampleView_def round_eval DOUBLE_0_4_def)

lemma rounding_offset_is_double:
  "roundDouble (pageYOffset roundingView) = Finite (pageYOffset roundingView)"
  by (simp add: roundingView_def round_eval)

lemma trigger_rounding: "triggerLine roundingView = Finite 1600"
  by (simp add: triggerLine_def roundingView_def round_eval DOUBLE_0_4_def)

lemma spec_trigger_rounding:
  "specTriggerLine roundingView = 35184372088831999 / 21990232555520"
  by (simp add: specTriggerLine_def roundingView_def)

lemma fractional_inputs_are_doubles:
  "roundDouble (pageYOffset fractionalView) = Finite (pageYOffset fractionalView)"
  "roundDouble (rectTop fractionalLayout) = Finite (rectTop fractionalLayout)"
  by (simp_all add: fractionalView_def fractionalLayout_def round_eval)

section \<open>Scroll-spy\<close>

lemma visitSection_eq:
  "visitSection v (triggerLine v) i cur = (if atOrAbove v i then i else cur)"
  by (simp add: visitSection_def atOrAbove_def split: option.split)

lemma fold_select_last:
  "fold (\<lambda>i cur. if P i then i else cur) xs a = (if filter P xs = [] then a else last (filter P xs))"
  by (induction xs arbitrary: a) simp_all

lemma detect_walk:
  "\<not> pageYOffset v < 80 \<Longrightarrow>
   detectActiveSection v =
     (if filter (atOrAbove v) SECTION_IDS = [] then js ''home''
      else last (filter (atOrAbove v) SECTION_IDS))"
proof -
  assume a: "\<not> pageYOffset v < 80"
  have f: "visitSection v (triggerLine v) = (\<lambda>i cur. if atOrAbove v i then i else cur)"
    by (intro ext) (rule visitSection_eq)
  have h: "SECTION_IDS ! 0 = js ''home''" by (simp add: SECTION_IDS_def)
  show ?thesis
    using a by (simp only: detectActiveSection_def Let_def f fold_select_last h if_False)
qed

lemma example_home: "detectActiveSection (exampleView 40) = js ''home''"
  by (simp add: detectActiveSection_def exampleView_def)

lemma ex_filter: "filter (atOrAbove (exampleView 900)) SECTION_IDS = [js ''home'', js ''about'']"
proof -
  have g: "getElementById (exampleView 900) = exampleSections" by (simp add: exampleView_def)
  show ?thesis
    by (simp add: atOrAbove_def g trigger_900 SECTION_IDS_def exampleSections_def js_def)
qed

lemma example_about: "detectActiveSection (exampleView 900) = js ''about''"
proof -
  have "\<not> pageYOffset (exampleView 900) < 80" by (simp add: exampleView_def)
  then show ?thesis by (simp add: detect_walk ex_filter)
qed

text \<open>
  C6, as amended. With the scroll offset less than 80 \<open>detectActiveSection\<close> returns the
  first section, \<open>home\<close>. Otherwise it returns the last section of the page order that
  exists and whose top is at or above the trigger line, where the trigger line is
  computed in double arithmetic: the window height times the double 0.4, rounded, added
  to the scroll offset, rounded (and \<open>home\<close> when there is no such section). On the
  example page (tops 0, 800, 1600; height 1000) offset 40 gives \<open>home\<close> and offset 900
  gives \<open>about\<close>.
\<close>

theorem detectActiveSection_selects:
  "(pageYOffset v < 80 \<longrightarrow> detectActiveSection v = js ''home'') \<and>
   (80 \<le> pageYOffset v \<and> filter (atOrAbove v) SECTION_IDS \<noteq> [] \<longrightarrow>
      detectActiveSection v = last (filter (atOrAbove v) SECTION_IDS)) \<and>
   (80 \<le> pageYOffset v \<and> filter (atOrAbove v) SECTION_IDS = [] \<longrightarrow>
      detectActiveSection v = js ''home'') \<and>
   triggerLine v =
     numAdd (Finite (pageYOffset v)) (numMul (Finite (innerHeight v)) (Finite DOUBLE_0_4)) \<and>
   roundDouble (4 / 10) = Finite DOUBLE_0_4 \<and>
   detectActiveSection (exampleView 40) = js ''home'' \<and>
   detectActiveSection (exampleView 900) = js ''about''"
proof -
  have 1: "pageYOffset v < 80 \<longrightarrow> detectActiveSection v = js ''home''"
    by (simp add: detectActiveSection_def)
  have 2: "80 \<le> pageYOffset v \<and> filter (atOrAbove v) SECTION_IDS \<noteq> [] \<longrightarrow>
      detectActiveSection v = last (filter (atOrAbove v) SECTION_IDS)"
    using detect_walk [of v] by (simp add: not_less)
  have 3: "80 \<le> pageYOffset v \<and> filter (atOrAbove v) SECTION_IDS = [] \<longrightarrow>
      detectActiveSection v = js ''home''"
    using detect_walk [of v] by (simp add: not_less)
  have 4: "triggerLine v =
     numAdd (Finite (pageYOffset v)) (numMul (Finite (innerHeight v)) (Finite DOUBLE_0_4))"
    by (rule triggerLine_def)
  from 1 2 3 4 double_0_4 example_home example_about show ?thesis by blast
qed

theorem detectActiveSection_selects_witness:
  "pageYOffset (exampleView 40) < 80 \<and> detectActiveSection (exampleView 40) = js ''home'' \<and>
   80 \<le> pageYOffset (exampleView 900) \<and> filter (atOrAbove (exampleView 900)) SECTION_IDS \<noteq> [] \<and>
   detectActiveSection (exampleView 900) = last (filter (atOrAbove (exampleView 900)) SECTION_IDS) \<and>
   last (filter (atOrAbove (exampleView 900)) SECTION_IDS) = js ''about'' \<and>
   80 \<le> pageYOffset emptyPage \<and> filter (atOrAbove emptyPage) SECTION_IDS = [] \<and>
   detectActiveSection emptyPage = js ''home''"
proof -
  have a: "pageYOffset (exampleView 40) < 80" by (simp add: exampleView_def)
  have b: "80 \<le> pageYOffset (exampleView 900)" by (simp add: exampleView_def)
  have c: "filter (atOrAbove (exampleView 900)) SECTION_IDS \<noteq> []" by (simp add: ex_filter)
  have d: "80 \<le> pageYOffset emptyPage" by (simp add: emptyPage_def)
  have e: "filter (atOrAbove emptyPage) SECTION_IDS = []"
    by (simp add: atOrAbove_def emptyPage_def SECTION_IDS_def)
  have f: "last (filter (atOrAbove (exampleView 900)) SECTION_IDS) = js ''about''"
    by (simp add: ex_filter)
  show ?thesis
    using a b c d e f detectActiveSection_selects [of "exampleView 40"]
      detectActiveSection_selects [of "exampleView 900"]
      detectActiveSection_selects [of emptyPage]
    by simp
qed

lemma rounding_filter:
  "filter (atOrAbove roundingView) SECTION_IDS = [js ''home'', js ''about'', js ''projects'']"
proof -
  have g: "getElementById roundingView = exampleSections" by (simp add: roundingView_def)
  show ?thesis
    by (simp add: atOrAbove_def g trigger_rounding SECTION_IDS_def exampleSections_def js_def)
qed

lemma rounding_spec_filter:
  "filter (specAtOrAbove roundingView) SECTION_IDS = [js ''home'', js ''about'']"
proof -
  have g: "getElementById roundingView = exampleSections" by (simp add: roundingView_def)
  show ?thesis
    by (simp add: specAtOrAbove_def g spec_trigger_rounding SECTION_IDS_def
        exampleSections_def js_def)
qed

text \<open>
  C6, as first stated, puts the trigger line at the scroll offset plus 40 percent of the
  window height. The example page is scrolled to the double nearest 1292.8 in a window 768
  high: the exact line lies just above the top 1600 of the third section, so \<open>about\<close> is
  the last section at or above it; the script's product rounds to 307.20000000000005 and
  its sum to 1600, and it returns \<open>projects\<close>.
\<close>

theorem exact_trigger_line_counterexample:
  "roundDouble (pageYOffset roundingView) = Finite (pageYOffset roundingView) \<and>
   \<not> pageYOffset roundingView < 80 \<and>
   specTriggerLine roundingView < 1600 \<and>
   last (filter (specAtOrAbove roundingView) SECTION_IDS) = js ''about'' \<and>
   triggerLine roundingView = Finite 1600 \<and>
   detectActiveSection roundingView = js ''projects'' \<and>
   detectActiveSection roundingView \<noteq> last (filter (specAtOrAbove roundingView) SECTION_IDS)"
proof -
  have n: "\<not> pageYOffset roundingView < 80" by (simp add: roundingView_def)
  have d: "detectActiveSection roundingView = js ''projects''"
    using n by (simp add: detect_walk rounding_filter)
  have s: "specTriggerLine roundingView < 1600" by (simp add: spec_trigger_rounding)
  have l: "last (filter (specAtOrAbove roundingView) SECTION_IDS) = js ''about''"
    by (simp add: rounding_spec_filter)
  have ne: "js ''projects'' \<noteq> js ''about''" by (simp add: js_def)
  from n d s l ne rounding_offset_is_double trigger_rounding show ?thesis by simp
qed

lemma visitSection_if:
  "visitSection v t =
     (\<lambda>i cur. if (case getElementById v i of None \<Rightarrow> False
                  | Some e \<Rightarrow> numLe (Finite (offsetTop e)) t)
               then i else cur)"
  by (intro ext) (simp add: visitSection_def split: option.split)

lemma detect_in_ids: "detectActiveSection v \<in> set SECTION_IDS"
proof (cases "pageYOffset v < 80")
  case True
  then show ?thesis by (simp add: detectActiveSection_def SECTION_IDS_def)
next
  case False
  then have d: "detectActiveSection v =
      (if filter (atOrAbove v) SECTION_IDS = [] then js ''home''
       else last (filter (atOrAbove v) SECTION_IDS))"
    by (rule detect_walk)
  show ?thesis
  proof (cases "filter (atOrAbove v) SECTION_IDS = []")
    case True
    with d show ?thesis by (simp add: SECTION_IDS_def)
  next
    case False
    then have "last (filter (atOrAbove v) SECTION_IDS) \<in> set (filter (atOrAbove v) SECTION_IDS)"
      by (rule last_in_set)
    with d False show ?thesis by simp
  qed
qed

lemma highlight_overwrites:
  "highlightActiveSection j (highlightActiveSection i links) = highlightActiveSection j links"
  by (simp add: highlightActiveSection_def highlightLink_def Let_def)

lemma lastEvaluation_in_ids:
  "current \<in> set SECTION_IDS \<Longrightarrow> lastEvaluation scheduled current events \<in> set SECTION_IDS"
  by (induction scheduled current events rule: lastEvaluation.induct)
    (simp_all add: detect_in_ids)

lemma fold_spyStep_links:
  "allNavLinks s = highlightActiveSection current links \<Longrightarrow>
   allNavLinks (fold spyStep events s) =
     highlightActiveSection (lastEvaluation (rafScheduled s) current events) links"
proof (induction events arbitrary: s current)
  case Nil
  then show ?case by simp
next
  case (Cons ev events)
  show ?case
  proof (cases ev)
    case ScrollEvent
    have "allNavLinks (spyStep ScrollEvent s) = highlightActiveSection current links"
      using Cons.prems by simp
    moreover have "rafScheduled (spyStep ScrollEvent s) = True" by simp
    ultimately show ?thesis
      using Cons.IH [of "spyStep ScrollEvent s" current] ScrollEvent by simp
  next
    case (AnimationFrame v)
    show ?thesis
    proof (cases "rafScheduled s")
      case True
      have "allNavLinks (spyStep (AnimationFrame v) s) =
          highlightActiveSection (detectActiveSection v) links"
        using True Cons.prems by (simp add: highlight_overwrites)
      moreover have "rafScheduled (spyStep (AnimationFrame v) s) = False" using True by simp
      ultimately show ?thesis
        using Cons.IH [of "spyStep (AnimationFrame v) s" "detectActiveSection v"]
          AnimationFrame True
        by simp
    next
      case False
      then have "spyStep (AnimationFrame v) s = s" by simp
      then show ?thesis
        using Cons.IH [of s current] Cons.prems AnimationFrame False by simp
    qed
  next
    case (LoadEvent v)
    have "allNavLinks (spyStep (LoadEvent v) s) =
        highlightActiveSection (detectActiveSection v) links"
      using Cons.prems by (simp add: highlight_overwrites)
    moreover have "rafScheduled (spyStep (LoadEvent v) s) = rafScheduled s" by simp
    ultimately show ?thesis
      using Cons.IH [of "spyStep (LoadEvent v) s" "detectActiveSection v"] LoadEvent
      by simp
  qed
qed

lemma highlighted_flags:
  "map is_active (highlightActiveSection i links) = map (\<lambda>l. data_section l = i) links"
  by (simp add: highlightActiveSection_def highlightLink_def Let_def)

lemma highlighted_count:
  "length (filter is_active (highlightActiveSection i links)) =
   length (filter (\<lambda>l. data_section l = i) links)"
  by (induction links) (simp_all add: highlightActiveSection_def highlightLink_def Let_def)

text \<open>
  C7, as amended. Before the first evaluation no navigation link is active. After it,
  and after any further events, a navigation link is active exactly when its section tag
  is the section identifier found by the most recent evaluation; the tags are untouched,
  so the number of active links is the number of links with that tag: exactly one when a
  single link carries it.
\<close>

theorem active_links_follow_detected_section:
  "list_all (\<lambda>l. \<not> is_active l) (markupLinks tags) \<and>
   lastDetected v [] = detectActiveSection v \<and>
   lastDetected v events \<in> set SECTION_IDS \<and>
   allNavLinks (spyRun v links events) = highlightActiveSection (lastDetected v events) links \<and>
   map is_active (allNavLinks (spyRun v links events)) =
     map (\<lambda>l. data_section l = lastDetected v events) links \<and>
   map data_section (allNavLinks (spyRun v links events)) = map data_section links \<and>
   length (filter is_active (allNavLinks (spyRun v links events))) =
     length (filter (\<lambda>l. data_section l = lastDetected v events) links)"
proof -
  have 0: "list_all (\<lambda>l. \<not> is_active l) (markupLinks tags)"
    by (simp add: markupLinks_def list_all_iff)
  have 1: "lastDetected v [] = detectActiveSection v" by (simp add: lastDetected_def)
  have 2: "lastDetected v events \<in> set SECTION_IDS"
    unfolding lastDetected_def using detect_in_ids by (rule lastEvaluation_in_ids)
  have i: "allNavLinks (initScrollSpy v links) =
      highlightActiveSection (detectActiveSection v) links"
    "rafScheduled (initScrollSpy v links) = False"
    by (simp_all add: initScrollSpy_def)
  have 3: "allNavLinks (spyRun v links events) =
      highlightActiveSection (lastDetected v events) links"
    unfolding spyRun_def lastDetected_def
    using fold_spyStep_links [OF i(1), of events] i(2) by simp
  have 5: "map data_section (highlightActiveSection (lastDetected v events) links) =
      map data_section links"
    by (simp add: highlightActiveSection_def highlightLink_def Let_def)
  from 0 1 2 3 5 highlighted_flags [of "lastDetected v events" links]
    highlighted_count [of "lastDetected v events" links]
  show ?thesis by simp
qed

text \<open>
  C7, as first stated, has exactly one active link after the first evaluation. With a
  desktop and a mobile navigation both links to the detected section are active.
\<close>

theorem duplicated_links_counterexample:
  "length (filter is_active (allNavLinks (spyRun (exampleView 40) duplicatedLinks []))) \<noteq> 1"
  by (simp add: spyRun_def initScrollSpy_def detectActiveSection_def exampleView_def
      duplicatedLinks_def markupLinks_def highlightActiveSection_def highlightLink_def Let_def
      js_def)

section \<open>Smooth-scroll navigation\<close>

lemma matches_is_hyperlink: "matchesInternalAnchor e \<Longrightarrow> isHyperlink e"
  by (auto simp add: matchesInternalAnchor_def isHyperlink_def split: option.splits)

lemma closest_nearest_hyperlink:
  "find isHyperlink chain = Some a \<Longrightarrow> matchesInternalAnchor a \<Longrightarrow> closest chain = Some a"
  unfolding closest_def
proof (induction chain)
  case Nil
  then show ?case by simp
next
  case (Cons x chain)
  show ?case
  proof (cases "isHyperlink x")
    case True
    with Cons.prems show ?thesis by simp
  next
    case False
    then have "\<not> matchesInternalAnchor x" using matches_is_hyperlink by blast
    with False Cons show ?thesis by simp
  qed
qed

lemma hash_link_matches:
  "find isHyperlink chain = Some a \<Longrightarrow> href a = Some (js ''#'' @ fragment) \<Longrightarrow>
   closest chain = Some a"
proof -
  assume f: "find isHyperlink chain = Some a" and h: "href a = Some (js ''#'' @ fragment)"
  from f have "isHyperlink a" by (auto simp add: find_Some_iff)
  with h have "matchesInternalAnchor a"
    by (simp add: matchesInternalAnchor_def isHyperlink_def js_def)
  with f show ?thesis by (rule closest_nearest_hyperlink)
qed

lemma closeMobileMenu_closes:
  "mobileMenuPanel m = Some p \<Longrightarrow> hamburgerButton m = Some b \<Longrightarrow>
   mobileMenuPanel (closeMobileMenu m) = Some (p\<lparr>is_open := False, aria_hidden := Some (js ''true'')\<rparr>)"
  by (simp add: closeMobileMenu_def)

text \<open>
  C8, as amended. When the nearest hyperlink above the click target points to a fragment
  that names an existing element, the handler prevents the default action, scrolls to
  the element's top in the document minus the height of the navigation bar (0 without a
  bar) minus 8, computed in double arithmetic with a rounding after the addition and
  after each subtraction, and closes the mobile menu. When it points to the bare \<open>#\<close> or to a fragment that names no
  element, the handler prevents nothing, scrolls nowhere and leaves the menu alone.
\<close>

theorem click_scrolls_below_nav:
  "(find isHyperlink chain = Some a \<and> href a = Some (js ''#'' @ fragment) \<and> fragment \<noteq> [] \<and>
    getElementById v fragment = Some t \<longrightarrow>
      clickHandler v m chain =
        \<lparr>defaultPrevented = True,
         scrolledTo = Some (numSub (numSub
           (numAdd (Finite (rectTop t)) (Finite (pageYOffset v)))
           (Finite (case siteNavHeight v of None \<Rightarrow> 0 | Some h \<Rightarrow> h))) (Finite 8)),
         menuAfter = closeMobileMenu m\<rparr>) \<and>
   (mobileMenuPanel m = Some p \<and> hamburgerButton m = Some b \<longrightarrow>
      mobileMenuPanel (closeMobileMenu m) =
        Some (p\<lparr>is_open := False, aria_hidden := Some (js ''true'')\<rparr>)) \<and>
   (find isHyperlink chain = Some a \<and>
    (href a = Some (js ''#'') \<or>
     href a = Some (js ''#'' @ fragment) \<and> getElementById v fragment = None) \<longrightarrow>
      clickHandler v m chain =
        \<lparr>defaultPrevented = False, scrolledTo = None, menuAfter = m\<rparr>)"
proof (intro conjI impI)
  assume a: "find isHyperlink chain = Some a \<and> href a = Some (js ''#'' @ fragment) \<and>
    fragment \<noteq> [] \<and> getElementById v fragment = Some t"
  then have c: "closest chain = Some a" using hash_link_matches by blast
  from a have n: "js ''#'' @ fragment \<noteq> js ''#''" "drop 1 (js ''#'' @ fragment) = fragment"
    by (simp_all add: js_def)
  from a c n show "clickHandler v m chain =
        \<lparr>defaultPrevented = True,
         scrolledTo = Some (numSub (numSub
           (numAdd (Finite (rectTop t)) (Finite (pageYOffset v)))
           (Finite (case siteNavHeight v of None \<Rightarrow> 0 | Some h \<Rightarrow> h))) (Finite 8)),
         menuAfter = closeMobileMenu m\<rparr>"
    by (simp add: clickHandler_def Let_def split: option.split)
next
  assume "mobileMenuPanel m = Some p \<and> hamburgerButton m = Some b"
  then show "mobileMenuPanel (closeMobileMenu m) =
        Some (p\<lparr>is_open := False, aria_hidden := Some (js ''true'')\<rparr>)"
    by (simp add: closeMobileMenu_closes)
next
  assume a: "find isHyperlink chain = Some a \<and>
    (href a = Some (js ''#'') \<or>
     href a = Some (js ''#'' @ fragment) \<and> getElementById v fragment = None)"
  then have "href a = Some (js ''#'' @ []) \<or> href a = Some (js ''#'' @ fragment)" by auto
  with a have c: "closest chain = Some a" using hash_link_matches by blast
  have d: "drop 1 (js ''#'' @ fragment) = fragment" by (simp add: js_def)
  from a c d show "clickHandler v m chain =
        \<lparr>defaultPrevented = False, scrolledTo = None, menuAfter = m\<rparr>"
    by (auto simp add: clickHandler_def ignoredClick_def)
qed

theorem click_scrolls_below_nav_witness:
  "find isHyperlink iconInAboutLink = Some \<lparr>tagName = ''a'', href = Some (js ''#about'')\<rparr> \<and>
   getElementById (exampleView 0) (js ''about'') = Some \<lparr>offsetTop = 800, rectTop = 800\<rparr> \<and>
   clickHandler (exampleView 0) openMenu iconInAboutLink =
     \<lparr>defaultPrevented = True, scrolledTo = Some (Finite 728),
      menuAfter = closeMobileMenu openMenu\<rparr> \<and>
   mobileMenuPanel (closeMobileMenu openMenu) =
     Some \<lparr>is_open = False, aria_hidden = Some (js ''true'')\<rparr> \<and>
   find isHyperlink [\<lparr>tagName = ''a'', href = Some (js ''#'')\<rparr>] =
     Some \<lparr>tagName = ''a'', href = Some (js ''#'')\<rparr> \<and>
   clickHandler (exampleView 0) openMenu [\<lparr>tagName = ''a'', href = Some (js ''#'')\<rparr>] =
     \<lparr>defaultPrevented = False, scrolledTo = None, menuAfter = openMenu\<rparr> \<and>
   find isHyperlink [\<lparr>tagName = ''a'', href = Some (js ''#blog'')\<rparr>] =
     Some \<lparr>tagName = ''a'', href = Some (js ''#blog'')\<rparr> \<and>
   getElementById (exampleView 0) (js ''blog'') = None \<and>
   clickHandler (exampleView 0) openMenu [\<lparr>tagName = ''a'', href = Some (js ''#blog'')\<rparr>] =
     \<lparr>defaultPrevented = False, scrolledTo = None, menuAfter = openMenu\<rparr>"
proof -
  let ?about = "\<lparr>tagName = ''a'', href = Some (js ''#about'')\<rparr>"
  let ?bare = "\<lparr>tagName = ''a'', href = Some (js ''#'')\<rparr>"
  let ?blog = "\<lparr>tagName = ''a'', href = Some (js ''#blog'')\<rparr>"
  have f1: "find isHyperlink iconInAboutLink = Some ?about"
    by (simp add: iconInAboutLink_def isHyperlink_def)
  have h1: "href ?about = Some (js ''#'' @ js ''about'')" "js ''about'' \<noteq> []"
    by (simp_all add: js_def)
  have g1: "getElementById (exampleView 0) (js ''about'') = Some \<lparr>offsetTop = 800, rectTop = 800\<rparr>"
    by (simp add: exampleView_def exampleSections_def js_def)
  have m: "mobileMenuPanel openMenu = Some \<lparr>is_open = True, aria_hidden = Some (js ''false'')\<rparr>"
      "hamburgerButton openMenu = Some \<lparr>aria_expanded = Some (js ''true''),
        aria_label = Some (js ''Close navigation menu'')\<rparr>"
    by (simp_all add: openMenu_def)
  have f2: "find isHyperlink [?bare] = Some ?bare" by (simp add: isHyperlink_def)
  have f3: "find isHyperlink [?blog] = Some ?blog" by (simp add: isHyperlink_def)
  have h3: "href ?blog = Some (js ''#'' @ js ''blog'')" by (simp add: js_def)
  have g3: "getElementById (exampleView 0) (js ''blog'') = None"
    by (simp add: exampleView_def exampleSections_def js_def)
  have v: "pageYOffset (exampleView 0) = 0" "siteNavHeight (exampleView 0) = Some 64"
    by (simp_all add: exampleView_def)
  note t1 = click_scrolls_below_nav [of iconInAboutLink ?about "js ''about''" "exampleView 0"
      "\<lparr>offsetTop = 800, rectTop = 800\<rparr>" openMenu
      "\<lparr>is_open = True, aria_hidden = Some (js ''false'')\<rparr>"
      "\<lparr>aria_expanded = Some (js ''true''), aria_label = Some (js ''Close navigation menu'')\<rparr>"]
  note t2 = click_scrolls_below_nav [of "[?bare]" ?bare "[]" "exampleView 0" _ openMenu]
  note t3 = click_scrolls_below_nav [of "[?blog]" ?blog "js ''blog''" "exampleView 0" _ openMenu]
  have r: "numSub (numSub (numAdd (Finite 800) (Finite 0)) (Finite 64)) (Finite 8) = Finite 728"
    by (simp add: numSub_def round_eval)
  have c1: "clickHandler (exampleView 0) openMenu iconInAboutLink =
     \<lparr>defaultPrevented = True, scrolledTo = Some (Finite 728),
      menuAfter = closeMobileMenu openMenu\<rparr>"
    using t1 f1 h1 g1 v r by simp
  have c1': "mobileMenuPanel (closeMobileMenu openMenu) =
     Some \<lparr>is_open = False, aria_hidden = Some (js ''true'')\<rparr>"
    using t1 m by simp
  have c2: "clickHandler (exampleView 0) openMenu [?bare] =
     \<lparr>defaultPrevented = False, scrolledTo = None, menuAfter = openMenu\<rparr>"
    using t2 f2 by simp
  have c3: "clickHandler (exampleView 0) openMenu [?blog] =
     \<lparr>defaultPrevented = False, scrolledTo = None, menuAfter = openMenu\<rparr>"
    using t3 f3 h3 g3 by simp
  from f1 g1 c1 c1' f2 c2 f3 g3 c3 show ?thesis by simp
qed

lemma fractional_click:
  "scrolledTo (clickHandler fractionalView openMenu iconInAboutLink) =
     Some (Finite (6724173310826905 / 4398046511104))"
  by (simp add: clickHandler_def closest_def matchesInternalAnchor_def iconInAboutLink_def
      fractionalView_def fractionalLayout_def js_def numSub_def round_eval)

lemma fractional_spec:
  "specScrollDestination fractionalView fractionalLayout = 53793386486615243 / 35184372088832"
  by (simp add: specScrollDestination_def fractionalView_def fractionalLayout_def)

text \<open>
  C8, as first stated, has the destination equal the top in the document minus the bar
  minus 8. With the target 1350.3 below the top of the window, the page scrolled to
  250.6 (both the nearest doubles) and a bar 64 high, the exact value is not a double;
  the script's three roundings give the double 1528.8999999999999, which lies below it.
\<close>

theorem exact_destination_counterexample:
  "roundDouble (pageYOffset fractionalView) = Finite (pageYOffset fractionalView) \<and>
   roundDouble (rectTop fractionalLayout) = Finite (rectTop fractionalLayout) \<and>
   getElementById fractionalView (js ''about'') = Some fractionalLayout \<and>
   scrolledTo (clickHandler fractionalView openMenu iconInAboutLink) =
     Some (Finite (6724173310826905 / 4398046511104)) \<and>
   specScrollDestination fractionalView fractionalLayout = 53793386486615243 / 35184372088832 \<and>
   scrolledTo (clickHandler fractionalView openMenu iconInAboutLink) \<noteq>
     Some (Finite (specScrollDestination fractionalView fractionalLayout))"
proof -
  have g: "getElementById fractionalView (js ''about'') = Some fractionalLayout"
    by (simp add: fractionalView_def)
  from g fractional_inputs_are_doubles fractional_click fractional_spec show ?thesis by simp
qed

section \<open>One-shot observers\<close>

lemma revealEntry_keeps: "revealed s \<subseteq> revealed (revealEntry e s)"
  by (auto simp add: revealEntry_def)

lemma revealCallback_keeps: "revealed s \<subseteq> revealed (revealCallback entries s)"
  unfolding revealCallback_def
proof (induction entries arbitrary: s)
  case Nil
  then show ?case by simp
next
  case (Cons e entries)
  have "revealed s \<subseteq> revealed (revealEntry e s)" by (rule revealEntry_keeps)
  also have "\<dots> \<subseteq> revealed (fold revealEntry entries (revealEntry e s))" by (rule Cons.IH)
  finally show ?case by simp
qed

lemma revealEntry_fired:
  "target e \<in> revealed s \<Longrightarrow> target e \<notin> observed s \<Longrightarrow> revealEntry e s = s"
  by (simp add: revealEntry_def insert_absorb)

lemma revealCallback_fired:
  "list_all (\<lambda>e. target e \<in> revealed s \<and> target e \<notin> observed s) entries \<Longrightarrow>
   revealCallback entries s = s"
  unfolding revealCallback_def
  by (induction entries) (simp_all add: revealEntry_fired)

lemma revealEntry_fires:
  "isIntersecting e \<Longrightarrow>
   target e \<in> revealed (revealEntry e s) \<and> target e \<notin> observed (revealEntry e s)"
  by (simp add: revealEntry_def)

lemma skillsEntry_fired: "hasAnimated k \<Longrightarrow> skillsEntry bars e k = k"
  by (simp add: skillsEntry_def)

lemma skillsCallback_fired: "hasAnimated k \<Longrightarrow> skillsCallback bars entries k = k"
  unfolding skillsCallback_def
  by (induction entries) (simp_all add: skillsEntry_fired)

lemma skillsEntry_fires: "isIntersecting e \<Longrightarrow> hasAnimated (skillsEntry bars e k)"
  by (simp add: skillsEntry_def fillBars_def)

text \<open>
  C9. A revealed element stays revealed through every callback. An intersecting entry
  reveals its element and stops its observation, and from then on entries for that
  element leave the state as it is. The skill bars likewise: the first intersecting entry
  sets \<open>hasAnimated\<close>, and once it is set every callback leaves the state, the scheduled
  timers included, as it is.
\<close>

theorem one_shot_transitions:
  "revealed s \<subseteq> revealed (revealCallback entries s) \<and>
   (isIntersecting e \<longrightarrow>
      target e \<in> revealed (revealCallback [e] s) \<and> target e \<notin> observed (revealCallback [e] s)) \<and>
   (list_all (\<lambda>e. target e \<in> revealed s \<and> target e \<notin> observed s) entries \<longrightarrow>
      revealCallback entries s = s) \<and>
   (isIntersecting e \<and> target e' = target e \<longrightarrow>
      revealCallback [e'] (revealCallback [e] s) = revealCallback [e] s) \<and>
   (isIntersecting e \<longrightarrow> hasAnimated (skillsCallback bars [e] k)) \<and>
   (hasAnimated k \<longrightarrow> hasAnimated (skillsCallback bars entries k)) \<and>
   (hasAnimated k \<longrightarrow> skillsCallback bars entries k = k) \<and>
   (isIntersecting e \<longrightarrow>
      skillsCallback bars entries (skillsCallback bars [e] k) = skillsCallback bars [e] k)"
proof -
  have 1: "revealed s \<subseteq> revealed (revealCallback entries s)" by (rule revealCallback_keeps)
  have 2: "isIntersecting e \<longrightarrow>
      target e \<in> revealed (revealCallback [e] s) \<and> target e \<notin> observed (revealCallback [e] s)"
    using revealEntry_fires [of e s] by (simp add: revealCallback_def)
  have 3: "list_all (\<lambda>e. target e \<in> revealed s \<and> target e \<notin> observed s) entries \<longrightarrow>
      revealCallback entries s = s"
    using revealCallback_fired [of s entries] by blast
  have 4: "isIntersecting e \<and> target e' = target e \<longrightarrow>
      revealCallback [e'] (revealCallback [e] s) = revealCallback [e] s"
  proof
    assume a: "isIntersecting e \<and> target e' = target e"
    with 2 have "target e' \<in> revealed (revealCallback [e] s)"
        "target e' \<notin> observed (revealCallback [e] s)" by simp_all
    then show "revealCallback [e'] (revealCallback [e] s) = revealCallback [e] s"
      using revealCallback_fired [of "revealCallback [e] s" "[e']"] by simp
  qed
  have 5: "isIntersecting e \<longrightarrow> hasAnimated (skillsCallback bars [e] k)"
    using skillsEntry_fires [of e bars k] by (simp add: skillsCallback_def)
  have 7: "hasAnimated k \<longrightarrow> skillsCallback bars entries k = k"
    using skillsCallback_fired [of k bars entries] by blast
  then have 6: "hasAnimated k \<longrightarrow> hasAnimated (skillsCallback bars entries k)" by auto
  have 8: "isIntersecting e \<longrightarrow>
      skillsCallback bars entries (skillsCallback bars [e] k) = skillsCallback bars [e] k"
    using 5 skillsCallback_fired [of "skillsCallback bars [e] k" bars entries] by blast
  from 1 2 3 4 5 6 7 8 show ?thesis by blast
qed

theorem one_shot_transitions_witness:
  "isIntersecting \<lparr>target = 1, isIntersecting = True\<rparr> \<and>
   revealCallback [\<lparr>target = 1, isIntersecting = True\<rparr>] (initRevealAnimations True [0, 1, 2] {}) =
     \<lparr>revealed = {1}, observed = {0, 2}\<rparr> \<and>
   list_all (\<lambda>e. target e \<in> revealed \<lparr>revealed = {1}, observed = {0, 2}\<rparr> \<and>
                 target e \<notin> observed \<lparr>revealed = {1}, observed = {0, 2}\<rparr>)
     [\<lparr>target = 1, isIntersecting = True\<rparr>, \<lparr>target = 1, isIntersecting = False\<rparr>] \<and>
   revealCallback [\<lparr>target = 1, isIntersecting = True\<rparr>, \<lparr>target = 1, isIntersecting = False\<rparr>]
     \<lparr>revealed = {1}, observed = {0, 2}\<rparr> = \<lparr>revealed = {1}, observed = {0, 2}\<rparr> \<and>
   hasAnimated (skillsCallback [Some (js ''90''), Some (js ''75'')]
     [\<lparr>target = 0, isIntersecting = True\<rparr>] (initSkillBarAnimations True True [Some (js ''90''), Some (js ''75'')])) \<and>
   skillsCallback [Some (js ''90''), Some (js ''75'')] [\<lparr>target = 0, isIntersecting = True\<rparr>]
     (skillsCallback [Some (js ''90''), Some (js ''75'')]
        [\<lparr>target = 0, isIntersecting = True\<rparr>] (initSkillBarAnimations True True [Some (js ''90''), Some (js ''75'')])) =
   skillsCallback [Some (js ''90''), Some (js ''75'')]
        [\<lparr>target = 0, isIntersecting = True\<rparr>] (initSkillBarAnimations True True [Some (js ''90''), Some (js ''75'')])"
proof -
  let ?e = "\<lparr>target = 1, isIntersecting = True\<rparr>"
  let ?s = "\<lparr>revealed = {1::nat}, observed = {0::nat, 2}\<rparr>"
  let ?bars = "[Some (js ''90''), Some (js ''75'')]"
  let ?k = "initSkillBarAnimations True True ?bars"
  let ?h = "\<lparr>target = 0, isIntersecting = True\<rparr>"
  have i: "isIntersecting ?e" "isIntersecting ?h" by simp_all
  have r: "revealCallback [?e] (initRevealAnimations True [0, 1, 2] {}) = ?s"
    by (auto simp add: revealCallback_def revealEntry_def initRevealAnimations_def)
  have l: "list_all (\<lambda>e. target e \<in> revealed ?s \<and> target e \<notin> observed ?s)
     [?e, \<lparr>target = 1, isIntersecting = False\<rparr>]" by simp
  note t1 = one_shot_transitions [of ?s "[?e, \<lparr>target = 1, isIntersecting = False\<rparr>]" ?e ?e]
  note t2 = one_shot_transitions [of _ "[?h]" ?h _ ?bars ?k]
  from i r l t1 t2 show ?thesis by simp
qed

end
